theory Spec2Isabelle
  imports Complex_Main
begin

unbundle bit_operations_syntax

section \<open>Data model of the GPU shell backend\<close>

text \<open>
  The embedding follows \<^verbatim>\<open>bcuda_template.cu\<close> and \<^verbatim>\<open>shell_context.h\<close>.
  \<^verbatim>\<open>PetscInt\<close> values are integers; every index, mask and basis state of a call is
  non-negative and within the machine range, where the bitwise operations and the index
  arithmetic of the source agree with those on \<^typ>\<open>int\<close>. \<^verbatim>\<open>PetscReal\<close> and
  \<^verbatim>\<open>PetscScalar\<close> are taken as the real and complex numbers: the arithmetic is exact,
  rounding is not part of the model.
\<close>

type_synonym PetscInt = int
type_synonym PetscReal = real
type_synonym PetscScalar = complex

datatype error = PETSC_ERR_ARG_OUTOFRANGE | OutOfBounds

datatype NormType = NORM_1 | NORM_2 | NORM_FROBENIUS | NORM_INFINITY | NORM_1_AND_2

datatype subspace_type = Full_SP | Parity_SP | SpinConserve_SP | Explicit_SP

text \<open>
  The subspace data of one side of the operator. The template is expanded once for every
  pair of subspace variants; the variant's functions \<^verbatim>\<open>Dim\<close>, \<^verbatim>\<open>I2S_CUDA\<close> and
  \<^verbatim>\<open>S2I_CUDA\<close> are fields here. \<^verbatim>\<open>S2I_CUDA\<close> gives the index of a state, or -1 for a
  state outside the subspace, and (used for SpinConserve only) the combination sign.
\<close>

record subspace =
  SP :: subspace_type
  L :: PetscInt
  spinflip :: bool
  Dim :: PetscInt
  I2S :: "PetscInt \<Rightarrow> PetscInt"
  S2I :: "PetscInt \<Rightarrow> PetscInt \<times> PetscInt"

record msc_t =
  msc_nmasks :: PetscInt
  msc_masks :: "PetscInt list"
  msc_mask_offsets :: "PetscInt list"
  msc_signs :: "PetscInt list"
  msc_coeffs :: "PetscScalar list"

text \<open>
  \<^verbatim>\<open>sc_ctx\<close> is \<^term>\<open>False\<close> for \<^verbatim>\<open>PETSC_NULL\<close> (no scatter context created yet);
  \<^verbatim>\<open>x_all\<close> is the sequential copy of the input vector.
\<close>

record shell_context =
  nmasks_local :: PetscInt
  nmasks :: PetscInt
  masks :: "PetscInt list"
  mask_offsets :: "PetscInt list"
  signs :: "PetscInt list"
  real_coeffs :: "PetscReal list"
  left_subspace_data :: subspace
  right_subspace_data :: subspace
  nrm :: PetscReal
  sc_ctx :: bool
  x_all :: "PetscScalar list"

text \<open>
  A distributed vector as one process sees it: its ownership range and the array of the
  entries it owns.
\<close>

record Vec =
  own_start :: PetscInt
  own_end :: PetscInt
  array :: "PetscScalar list"

definition GPU_BLOCK_SIZE :: nat where
  "GPU_BLOCK_SIZE = 128"

definition GPU_BLOCK_NUM :: nat where
  "GPU_BLOCK_NUM = 128"

section \<open>Arithmetic of the kernels\<close>

text \<open>Integer division of C truncates towards zero.\<close>

definition c_div :: "int \<Rightarrow> int \<Rightarrow> int" where
  "c_div a b = sgn a * sgn b * (\<bar>a\<bar> div \<bar>b\<bar>)"

fun popcount :: "nat \<Rightarrow> nat" where
  "popcount n = (if n = 0 then 0 else n mod 2 + popcount (n div 2))"

declare popcount.simps [simp del]

text \<open>\<^verbatim>\<open>__popc\<close>: the number of set bits of the 32-bit pattern of its argument.\<close>

definition popc :: "PetscInt \<Rightarrow> PetscInt" where
  "popc x = int (popcount (nat (x mod 2 ^ 32)))"

text \<open>
  Modelled from the spec: the device helpers \<^verbatim>\<open>add_real\<close> and \<^verbatim>\<open>add_imag\<close> are not
  part of the sources at hand; a term adds to the real or to the imaginary accumulator
  of the subtotal.
\<close>

definition add_real :: "PetscScalar \<Rightarrow> PetscReal \<Rightarrow> PetscScalar" where
  "add_real x c = Complex (Re x + c) (Im x)"

definition add_imag :: "PetscScalar \<Rightarrow> PetscReal \<Rightarrow> PetscScalar" where
  "add_imag x c = Complex (Re x) (Im x + c)"

text \<open>
  The body of the loop over the terms of one mask. The classification
  \<^verbatim>\<open>TERM_REAL_CUDA\<close> is a macro of a header that is not at hand: it is the parameter
  \<open>term_real\<close>, a function of the mask and the sign mask.
\<close>

definition term_step ::
  "(PetscInt \<Rightarrow> PetscInt \<Rightarrow> bool) \<Rightarrow> PetscInt list \<Rightarrow> PetscReal list \<Rightarrow>
   PetscInt \<Rightarrow> PetscInt \<Rightarrow> PetscScalar \<Rightarrow> PetscInt \<Rightarrow> PetscScalar" where
  "term_step term_real sgns rcoeffs msk bra tmp term_idx =
     (let sign = real_of_int (popc (bra AND sgns ! nat term_idx) AND 1);
          sign = 1 - 2 * sign
      in if term_real msk (sgns ! nat term_idx)
         then add_real tmp (sign * rcoeffs ! nat term_idx)
         else add_imag tmp (sign * rcoeffs ! nat term_idx))"

text \<open>
  \<^verbatim>\<open>for (term_idx = mask_offsets[mask_idx]; term_idx < mask_offsets[mask_idx+1]; ++term_idx)\<close>,
  starting from \<open>tmp = 0\<close>, with \<open>bra = ket ^ masks[mask_idx]\<close>.
\<close>

definition term_loop ::
  "(PetscInt \<Rightarrow> PetscInt \<Rightarrow> bool) \<Rightarrow> PetscInt list \<Rightarrow> PetscInt list \<Rightarrow> PetscInt list \<Rightarrow>
   PetscReal list \<Rightarrow> PetscInt \<Rightarrow> nat \<Rightarrow> PetscScalar" where
  "term_loop term_real msks offsets sgns rcoeffs ket mask_idx =
     (let bra = ket XOR msks ! mask_idx
      in foldl (term_step term_real sgns rcoeffs (msks ! mask_idx) bra) 0
           [offsets ! mask_idx .. offsets ! (mask_idx + 1) - 1])"

text \<open>
  The lookup of the column: for a SpinConserve right subspace the subtotal is multiplied
  by the sign that \<^verbatim>\<open>S2I_CUDA\<close> returns, for the others there is no sign.
\<close>

definition lookup_col :: "subspace \<Rightarrow> PetscInt \<Rightarrow> PetscScalar \<Rightarrow> PetscInt \<times> PetscScalar" where
  "lookup_col right bra tmp =
     (if SP right = SpinConserve_SP
      then (fst (S2I right bra), tmp * of_int (snd (S2I right bra)))
      else (fst (S2I right bra), tmp))"

text \<open>
  A read of the input array. The source checks nothing but \<open>col_idx != -1\<close>; an index
  outside the array is undefined behaviour there and the error \<^term>\<open>OutOfBounds\<close> here.
\<close>

definition read_x :: "PetscScalar list \<Rightarrow> PetscInt \<Rightarrow> error + PetscScalar" where
  "read_x xarray i =
     (if 0 \<le> i \<and> i < int (length xarray) then Inr (xarray ! nat i) else Inl OutOfBounds)"

text \<open>
  The loop over the masks of one row of the multiply kernels, over the mask indices still
  to do. The local kernel reads \<open>xarray[col_idx - col_start]\<close>, the global kernel
  \<open>x_allarray[col_idx]\<close>, which is the same with \<open>col_start = 0\<close>.
\<close>

fun mask_loop ::
  "(PetscInt \<Rightarrow> PetscInt \<Rightarrow> bool) \<Rightarrow> PetscInt list \<Rightarrow> PetscInt list \<Rightarrow> PetscInt list \<Rightarrow>
   PetscReal list \<Rightarrow> subspace \<Rightarrow> PetscScalar list \<Rightarrow> PetscInt \<Rightarrow> PetscInt \<Rightarrow>
   nat list \<Rightarrow> PetscScalar \<Rightarrow> error + PetscScalar" where
  "mask_loop term_real msks offsets sgns rcoeffs right xarray col_start ket [] val = Inr val"
| "mask_loop term_real msks offsets sgns rcoeffs right xarray col_start ket (mask_idx # rest) val =
     (let tmp = term_loop term_real msks offsets sgns rcoeffs ket mask_idx;
          bra = ket XOR msks ! mask_idx;
          col_idx = fst (lookup_col right bra tmp);
          tmp = snd (lookup_col right bra tmp)
      in if col_idx \<noteq> -1
         then (case read_x xarray (col_idx - col_start) of
                 Inl e \<Rightarrow> Inl e
               | Inr xv \<Rightarrow> mask_loop term_real msks offsets sgns rcoeffs right xarray col_start
                            ket rest (val + tmp * xv))
         else mask_loop term_real msks offsets sgns rcoeffs right xarray col_start ket rest val)"

text \<open>The value \<open>val\<close> of one row: the loop over \<open>mask_idx = 0, ..., nmasks - 1\<close> from 0.\<close>

definition row_val ::
  "(PetscInt \<Rightarrow> PetscInt \<Rightarrow> bool) \<Rightarrow> PetscInt list \<Rightarrow> PetscInt list \<Rightarrow> PetscInt list \<Rightarrow>
   PetscReal list \<Rightarrow> PetscInt \<Rightarrow> subspace \<Rightarrow> subspace \<Rightarrow> PetscScalar list \<Rightarrow>
   PetscInt \<Rightarrow> PetscInt \<Rightarrow> PetscInt \<Rightarrow> error + PetscScalar" where
  "row_val term_real msks offsets sgns rcoeffs n_masks left right xarray row_start col_start row_idx =
     (let ket = I2S left (row_idx + row_start)
      in mask_loop term_real msks offsets sgns rcoeffs right xarray col_start ket
           [0 ..< nat n_masks] 0)"

section \<open>Kernel launches\<close>

text \<open>
  The rows of one thread:
  \<^verbatim>\<open>for (row_idx = this_start; row_idx < vec_stop_index; row_idx += blockDim.x)\<close>.
  Every thread that exists has \<open>blockDim.x \<ge> 1\<close>. The grid and block indices are unsigned
  in CUDA; for a launch over at least one row every operand of the index arithmetic is
  non-negative and the conversions between signed and unsigned change nothing. For a
  launch over no rows the division \<open>(local_size - 1) / gridDim.x\<close> is taken as the signed
  division, as it is with 64-bit indices.
\<close>

function thread_rows :: "int \<Rightarrow> int \<Rightarrow> int \<Rightarrow> int list" where
  "thread_rows blockDim vec_stop_index row_idx =
     (if 0 < blockDim \<and> row_idx < vec_stop_index
      then row_idx # thread_rows blockDim vec_stop_index (row_idx + blockDim)
      else [])"
  by pat_completeness auto
termination
  by (relation "measure (\<lambda>(bd, stop, r). nat (stop - r))") auto

declare thread_rows.simps [simp del]

definition entries_per_group :: "PetscInt \<Rightarrow> nat \<Rightarrow> PetscInt" where
  "entries_per_group sz gridDim =
     (let e = c_div (sz - 1) (int gridDim) + 1 in if e = 0 then 1 else e)"

definition vec_start_index :: "PetscInt \<Rightarrow> nat \<Rightarrow> nat \<Rightarrow> PetscInt" where
  "vec_start_index sz gridDim blockIdx = int blockIdx * entries_per_group sz gridDim"

definition vec_stop_index :: "PetscInt \<Rightarrow> nat \<Rightarrow> nat \<Rightarrow> PetscInt" where
  "vec_stop_index sz gridDim blockIdx =
     min ((int blockIdx + 1) * entries_per_group sz gridDim) sz"

text \<open>Running a sequence of steps, stopping at the first that fails.\<close>

fun seq_run :: "('a \<Rightarrow> 's \<Rightarrow> error + 's) \<Rightarrow> 'a list \<Rightarrow> 's \<Rightarrow> error + 's" where
  "seq_run f [] s = Inr s"
| "seq_run f (a # as) s = (case f a s of Inl e \<Rightarrow> Inl e | Inr s' \<Rightarrow> seq_run f as s')"

text \<open>
  A launch \<^verbatim>\<open>kernel<<<gridDim, blockDim>>>\<close> of a kernel whose threads write disjoint
  entries: the threads of all blocks, one after the other.
\<close>

definition launch ::
  "nat \<Rightarrow> nat \<Rightarrow> (nat \<Rightarrow> nat \<Rightarrow> nat \<Rightarrow> nat \<Rightarrow> 's \<Rightarrow> error + 's) \<Rightarrow> 's \<Rightarrow> error + 's" where
  "launch gridDim blockDim kern s =
     seq_run (\<lambda>bt. kern gridDim blockDim (fst bt) (snd bt))
       (List.product [0 ..< gridDim] [0 ..< blockDim]) s"

section \<open>The multiply kernels\<close>

text \<open>
  The write of a row's value at the end of the row loop of the local kernel: two
  \<^verbatim>\<open>atomicAdd\<close>s on the real and the imaginary component for a SpinConserve right
  subspace with \<open>spinflip\<close> set, a store otherwise.
\<close>

definition write_local :: "subspace \<Rightarrow> PetscScalar list \<Rightarrow> PetscInt \<Rightarrow> PetscScalar \<Rightarrow> PetscScalar list" where
  "write_local right barray row_idx val =
     (if SP right = SpinConserve_SP
      then (if spinflip right
            then barray[nat row_idx :=
                   Complex (Re (barray ! nat row_idx) + Re val) (Im (barray ! nat row_idx) + Im val)]
            else barray[nat row_idx := val])
      else barray[nat row_idx := val])"

text \<open>The same place of the global kernel: two \<^verbatim>\<open>atomicAdd\<close>s, or \<open>+=\<close>.\<close>

definition write_global :: "subspace \<Rightarrow> PetscScalar list \<Rightarrow> PetscInt \<Rightarrow> PetscScalar \<Rightarrow> PetscScalar list" where
  "write_global right barray row_idx val =
     (if SP right = SpinConserve_SP
      then (if spinflip right
            then barray[nat row_idx :=
                   Complex (Re (barray ! nat row_idx) + Re val) (Im (barray ! nat row_idx) + Im val)]
            else barray[nat row_idx := barray ! nat row_idx + val])
      else barray[nat row_idx := barray ! nat row_idx + val])"

text \<open>One thread of \<^verbatim>\<open>device_MatMult_local\<close>.\<close>

definition device_MatMult_local ::
  "(PetscInt \<Rightarrow> PetscInt \<Rightarrow> bool) \<Rightarrow> PetscInt list \<Rightarrow> PetscInt list \<Rightarrow> PetscInt list \<Rightarrow>
   PetscReal list \<Rightarrow> PetscInt \<Rightarrow> subspace \<Rightarrow> subspace \<Rightarrow> PetscScalar list \<Rightarrow>
   PetscInt \<Rightarrow> PetscInt \<Rightarrow> PetscInt \<Rightarrow> nat \<Rightarrow> nat \<Rightarrow> nat \<Rightarrow> nat \<Rightarrow>
   PetscScalar list \<Rightarrow> error + PetscScalar list" where
  "device_MatMult_local term_real msks offsets sgns rcoeffs n_masks left right xarray
       row_start row_end col_start gridDim blockDim blockIdx threadIdx barray =
     (let local_size = row_end - row_start;
          this_start = vec_start_index local_size gridDim blockIdx + int threadIdx
      in seq_run
           (\<lambda>row_idx b.
              case row_val term_real msks offsets sgns rcoeffs n_masks left right xarray
                     row_start col_start row_idx of
                Inl e \<Rightarrow> Inl e
              | Inr val \<Rightarrow> Inr (write_local right b row_idx val))
           (thread_rows (int blockDim) (vec_stop_index local_size gridDim blockIdx) this_start)
           barray)"

text \<open>One thread of \<^verbatim>\<open>device_MatMult_global\<close>.\<close>

definition device_MatMult_global ::
  "(PetscInt \<Rightarrow> PetscInt \<Rightarrow> bool) \<Rightarrow> PetscInt list \<Rightarrow> PetscInt list \<Rightarrow> PetscInt list \<Rightarrow>
   PetscReal list \<Rightarrow> PetscInt \<Rightarrow> subspace \<Rightarrow> subspace \<Rightarrow> PetscScalar list \<Rightarrow>
   PetscInt \<Rightarrow> PetscInt \<Rightarrow> nat \<Rightarrow> nat \<Rightarrow> nat \<Rightarrow> nat \<Rightarrow>
   PetscScalar list \<Rightarrow> error + PetscScalar list" where
  "device_MatMult_global term_real msks offsets sgns rcoeffs n_masks left right x_allarray
       row_start row_end gridDim blockDim blockIdx threadIdx barray =
     (let local_size = row_end - row_start;
          this_start = vec_start_index local_size gridDim blockIdx + int threadIdx
      in seq_run
           (\<lambda>row_idx b.
              case row_val term_real msks offsets sgns rcoeffs n_masks left right x_allarray
                     row_start 0 row_idx of
                Inl e \<Rightarrow> Inl e
              | Inr val \<Rightarrow> Inr (write_global right b row_idx val))
           (thread_rows (int blockDim) (vec_stop_index local_size gridDim blockIdx) this_start)
           barray)"

text \<open>
  \<^verbatim>\<open>MatMult_GPU\<close> on one process. \<open>x_gathered\<close> is what the scatter to all delivers:
  the entries of the input vector of all processes, in order. The global kernel gets the
  mask and offset arrays advanced by \<open>nmasks_local\<close>.
\<close>

definition MatMult_GPU ::
  "(PetscInt \<Rightarrow> PetscInt \<Rightarrow> bool) \<Rightarrow> shell_context \<Rightarrow> Vec \<Rightarrow> PetscScalar list \<Rightarrow> Vec \<Rightarrow>
   error + shell_context \<times> Vec" where
  "MatMult_GPU term_real ctx x x_gathered b =
     (let ctx = (if \<not> sc_ctx ctx
                 then ctx\<lparr>sc_ctx := True, x_all := replicate (length x_gathered) 0\<rparr>
                 else ctx);
          barray = replicate (length (array b)) 0;
          xarray = array x;
          row_start = own_start b; row_end = own_end b;
          col_start = own_start x
      in case launch GPU_BLOCK_NUM GPU_BLOCK_SIZE
                (device_MatMult_local term_real (masks ctx) (mask_offsets ctx) (signs ctx)
                   (real_coeffs ctx) (nmasks_local ctx) (left_subspace_data ctx)
                   (right_subspace_data ctx) xarray row_start row_end col_start) barray of
           Inl e \<Rightarrow> Inl e
         | Inr barray \<Rightarrow>
             (let ctx = ctx\<lparr>x_all := x_gathered\<rparr>;
                  x_allarray = x_all ctx
              in case (if nmasks ctx - nmasks_local ctx > 0
                       then launch GPU_BLOCK_NUM GPU_BLOCK_SIZE
                              (device_MatMult_global term_real
                                 (drop (nat (nmasks_local ctx)) (masks ctx))
                                 (drop (nat (nmasks_local ctx)) (mask_offsets ctx))
                                 (signs ctx) (real_coeffs ctx)
                                 (nmasks ctx - nmasks_local ctx) (left_subspace_data ctx)
                                 (right_subspace_data ctx) x_allarray row_start row_end) barray
                       else Inr barray) of
                   Inl e \<Rightarrow> Inl e
                 | Inr barray \<Rightarrow> Inr (ctx, b\<lparr>array := barray\<rparr>)))"

section \<open>The norm\<close>

text \<open>The sum of one row of \<^verbatim>\<open>device_MatNorm\<close>: \<open>sum += abs(csum)\<close> over the masks.\<close>

definition row_sum ::
  "(PetscInt \<Rightarrow> PetscInt \<Rightarrow> bool) \<Rightarrow> PetscInt list \<Rightarrow> PetscInt list \<Rightarrow> PetscInt list \<Rightarrow>
   PetscReal list \<Rightarrow> PetscInt \<Rightarrow> subspace \<Rightarrow> PetscInt \<Rightarrow> PetscReal" where
  "row_sum term_real msks offsets sgns rcoeffs n_masks left row_idx =
     (let ket = I2S left row_idx
      in foldl (\<lambda>sum mask_idx. sum + cmod (term_loop term_real msks offsets sgns rcoeffs ket mask_idx))
           0 [0 ..< nat n_masks])"

text \<open>The maximum of one thread over its rows, from \<open>threadmax[threadIdx.x] = 0\<close>.\<close>

definition thread_max ::
  "(PetscInt \<Rightarrow> PetscInt \<Rightarrow> bool) \<Rightarrow> PetscInt list \<Rightarrow> PetscInt list \<Rightarrow> PetscInt list \<Rightarrow>
   PetscReal list \<Rightarrow> PetscInt \<Rightarrow> subspace \<Rightarrow> PetscInt \<Rightarrow> nat \<Rightarrow> nat \<Rightarrow> nat \<Rightarrow> nat \<Rightarrow>
   PetscReal" where
  "thread_max term_real msks offsets sgns rcoeffs n_masks left sz gridDim blockDim blockIdx threadIdx =
     foldl (\<lambda>tm row_idx.
              let sum = row_sum term_real msks offsets sgns rcoeffs n_masks left row_idx
              in if sum > tm then sum else tm)
       0 (thread_rows (int blockDim) (vec_stop_index sz gridDim blockIdx)
            (vec_start_index sz gridDim blockIdx + int threadIdx))"

text \<open>
  One round of the reduction in shared memory, between two \<^verbatim>\<open>__syncthreads\<close>: the
  threads with \<open>threadIdx.x % (2*i) == 0\<close> take the maximum with the entry \<open>i\<close> further.
\<close>

definition reduce_step :: "nat \<Rightarrow> PetscReal list \<Rightarrow> PetscReal list" where
  "reduce_step i threadmax =
     map (\<lambda>t. if t mod (2 * i) = 0
              then (let v1 = threadmax ! t; v2 = threadmax ! (t + i)
                    in if v1 > v2 then v1 else v2)
              else threadmax ! t)
       [0 ..< length threadmax]"

text \<open>\<^verbatim>\<open>for (i=1; i<blockDim.x; i*=2)\<close>.\<close>

function reduce_loop :: "nat \<Rightarrow> nat \<Rightarrow> PetscReal list \<Rightarrow> PetscReal list" where
  "reduce_loop blockDim i threadmax =
     (if 0 < i \<and> i < blockDim
      then reduce_loop blockDim (2 * i) (reduce_step i threadmax)
      else threadmax)"
  by pat_completeness auto
termination
  by (relation "measure (\<lambda>(bd, i, tm). bd - i)") auto

declare reduce_loop.simps [simp del]

text \<open>One block of \<^verbatim>\<open>device_MatNorm\<close>: the value it leaves in \<open>d_maxs[blockIdx.x]\<close>.\<close>

definition device_MatNorm ::
  "(PetscInt \<Rightarrow> PetscInt \<Rightarrow> bool) \<Rightarrow> PetscInt \<Rightarrow> PetscInt list \<Rightarrow> PetscInt list \<Rightarrow> PetscInt list \<Rightarrow>
   PetscReal list \<Rightarrow> PetscInt \<Rightarrow> subspace \<Rightarrow> nat \<Rightarrow> nat \<Rightarrow> nat \<Rightarrow> PetscReal" where
  "device_MatNorm term_real sz msks offsets sgns rcoeffs n_masks left gridDim blockDim blockIdx =
     (let threadmax = map (thread_max term_real msks offsets sgns rcoeffs n_masks left sz
                             gridDim blockDim blockIdx) [0 ..< blockDim]
      in reduce_loop blockDim 1 threadmax ! 0)"

text \<open>
  \<^verbatim>\<open>MatNorm_GPU\<close>; \<open>M\<close> is the number of rows of the matrix, which \<^verbatim>\<open>MatGetSize\<close>
  gives. It returns the error or the norm, and the context.
\<close>

definition MatNorm_GPU ::
  "(PetscInt \<Rightarrow> PetscInt \<Rightarrow> bool) \<Rightarrow> shell_context \<Rightarrow> PetscInt \<Rightarrow> NormType \<Rightarrow>
   (error + PetscReal) \<times> shell_context" where
  "MatNorm_GPU term_real ctx M type =
     (if type \<noteq> NORM_INFINITY then (Inl PETSC_ERR_ARG_OUTOFRANGE, ctx)
      else if nrm ctx \<noteq> -1 then (Inr (nrm ctx), ctx)
      else (let h_maxs = map (device_MatNorm term_real M (masks ctx) (mask_offsets ctx) (signs ctx)
                                (real_coeffs ctx) (nmasks ctx) (left_subspace_data ctx)
                                GPU_BLOCK_NUM GPU_BLOCK_SIZE) [0 ..< GPU_BLOCK_NUM];
                 n = foldl (\<lambda>n h. if h > n then h else n) 0 h_maxs
            in (Inr n, ctx\<lparr>nrm := n\<rparr>)))"

section \<open>Building the context\<close>

text \<open>
  \<^verbatim>\<open>int max_msc = pow(2, left_subspace_data->L - log(mpi_size)/log(2))\<close>: the conversion
  to \<^verbatim>\<open>int\<close> cuts the fraction of a positive number off.
\<close>

definition max_msc :: "PetscInt \<Rightarrow> int \<Rightarrow> int" where
  "max_msc l mpi_size = \<lfloor>2 powr (real_of_int l - ln (real_of_int mpi_size) / ln 2)\<rfloor>"

text \<open>The loop that finds the number of local masks, with its \<^verbatim>\<open>break\<close>.\<close>

function count_local_masks :: "PetscInt list \<Rightarrow> PetscInt \<Rightarrow> int \<Rightarrow> int \<Rightarrow> int" where
  "count_local_masks msks n_masks mx n_local =
     (if n_local < n_masks
      then (if msks ! nat n_local \<ge> mx then n_local
            else count_local_masks msks n_masks mx (n_local + 1))
      else n_local)"
  by pat_completeness auto
termination
  by (relation "measure (\<lambda>(ms, n, mx, k). nat (n - k))") auto

declare count_local_masks.simps [simp del]

definition BuildContext_CUDA :: "msc_t \<Rightarrow> subspace \<Rightarrow> subspace \<Rightarrow> int \<Rightarrow> shell_context" where
  "BuildContext_CUDA msc left right mpi_size =
     (let nterms = msc_mask_offsets msc ! nat (msc_nmasks msc);
          mx = max_msc (L left) mpi_size
      in \<lparr> nmasks_local = count_local_masks (msc_masks msc) (msc_nmasks msc) mx 0,
           nmasks = msc_nmasks msc,
           masks = take (nat (msc_nmasks msc)) (msc_masks msc),
           mask_offsets = take (nat (msc_nmasks msc + 1)) (msc_mask_offsets msc),
           signs = take (nat nterms) (msc_signs msc),
           real_coeffs = map (\<lambda>i. let real_part = Re (msc_coeffs msc ! i)
                                   in if real_part \<noteq> 0 then real_part
                                      else Im (msc_coeffs msc ! i)) [0 ..< nat nterms],
           left_subspace_data = left,
           right_subspace_data = right,
           nrm = -1,
           sc_ctx = False,
           x_all = [] \<rparr>)"

section \<open>The kernels in closed form\<close>

text \<open>
  The sign of a term of mask \<open>m\<close> in the row of the basis state \<open>ket\<close>: the parity of
  the set bits that the state after the flip, \<open>ket XOR m\<close>, shares with the sign mask.
\<close>

definition parity_sign :: "PetscInt \<Rightarrow> PetscInt \<Rightarrow> PetscInt \<Rightarrow> PetscReal" where
  "parity_sign ket m s = (if even (popc ((ket XOR m) AND s)) then 1 else -1)"

text \<open>The signed coefficient of one term, as a real or as an imaginary number.\<close>

definition signed_term ::
  "(PetscInt \<Rightarrow> PetscInt \<Rightarrow> bool) \<Rightarrow> PetscInt list \<Rightarrow> PetscReal list \<Rightarrow> PetscInt \<Rightarrow> PetscInt \<Rightarrow>
   PetscInt \<Rightarrow> PetscScalar" where
  "signed_term term_real sgns rcoeffs ket m t =
     (let c = parity_sign ket m (sgns ! nat t) * rcoeffs ! nat t
      in if term_real m (sgns ! nat t) then Complex c 0 else Complex 0 c)"

text \<open>The subtotal of a mask in a row: the sum over the terms of the mask.\<close>

definition subtotal ::
  "(PetscInt \<Rightarrow> PetscInt \<Rightarrow> bool) \<Rightarrow> PetscInt list \<Rightarrow> PetscInt list \<Rightarrow> PetscInt list \<Rightarrow>
   PetscReal list \<Rightarrow> PetscInt \<Rightarrow> nat \<Rightarrow> PetscScalar" where
  "subtotal term_real msks offsets sgns rcoeffs ket mask_idx =
     sum_list (map (signed_term term_real sgns rcoeffs ket (msks ! mask_idx))
       [offsets ! mask_idx .. offsets ! (mask_idx + 1) - 1])"

text \<open>The rows that the threads of a launch visit, in the order of the blocks and threads.\<close>

definition kernel_rows :: "nat \<Rightarrow> nat \<Rightarrow> int \<Rightarrow> int list" where
  "kernel_rows gridDim blockDim sz =
     concat (map (\<lambda>bt. thread_rows (int blockDim) (vec_stop_index sz gridDim (fst bt))
                         (vec_start_index sz gridDim (fst bt) + int (snd bt)))
               (List.product [0 ..< gridDim] [0 ..< blockDim]))"

text \<open>The column index that the right subspace gives for the flipped state of a mask.\<close>

definition col_of :: "subspace \<Rightarrow> PetscInt list \<Rightarrow> PetscInt \<Rightarrow> nat \<Rightarrow> PetscInt" where
  "col_of right msks ket mask_idx = fst (S2I right (ket XOR msks ! mask_idx))"

text \<open>The read of the input array for a mask is defined: the mask is skipped (index -1) or the
  index lies in the array, which holds the columns from \<open>col_start\<close> on.\<close>

definition in_bounds ::
  "subspace \<Rightarrow> PetscInt list \<Rightarrow> PetscScalar list \<Rightarrow> PetscInt \<Rightarrow> PetscInt \<Rightarrow> nat \<Rightarrow> bool" where
  "in_bounds right msks xarray col_start ket mask_idx =
     (let col_idx = col_of right msks ket mask_idx
      in col_idx = -1 \<or> (col_start \<le> col_idx \<and> col_idx < col_start + int (length xarray)))"

text \<open>The subtotal of a mask with the sign of the column lookup.\<close>

definition coefficient ::
  "(PetscInt \<Rightarrow> PetscInt \<Rightarrow> bool) \<Rightarrow> PetscInt list \<Rightarrow> PetscInt list \<Rightarrow> PetscInt list \<Rightarrow>
   PetscReal list \<Rightarrow> subspace \<Rightarrow> PetscInt \<Rightarrow> nat \<Rightarrow> PetscScalar" where
  "coefficient term_real msks offsets sgns rcoeffs right ket mask_idx =
     snd (lookup_col right (ket XOR msks ! mask_idx)
            (subtotal term_real msks offsets sgns rcoeffs ket mask_idx))"

text \<open>What a mask adds to the value of a row.\<close>

definition contribution ::
  "(PetscInt \<Rightarrow> PetscInt \<Rightarrow> bool) \<Rightarrow> PetscInt list \<Rightarrow> PetscInt list \<Rightarrow> PetscInt list \<Rightarrow>
   PetscReal list \<Rightarrow> subspace \<Rightarrow> PetscScalar list \<Rightarrow> PetscInt \<Rightarrow> PetscInt \<Rightarrow> nat \<Rightarrow> PetscScalar" where
  "contribution term_real msks offsets sgns rcoeffs right xarray col_start ket mask_idx =
     (if col_of right msks ket mask_idx = -1 then 0
      else coefficient term_real msks offsets sgns rcoeffs right ket mask_idx *
           xarray ! nat (col_of right msks ket mask_idx - col_start))"

text \<open>All reads of a row are defined.\<close>

definition row_in_bounds ::
  "PetscInt list \<Rightarrow> PetscInt \<Rightarrow> subspace \<Rightarrow> subspace \<Rightarrow> PetscScalar list \<Rightarrow>
   PetscInt \<Rightarrow> PetscInt \<Rightarrow> PetscInt \<Rightarrow> bool" where
  "row_in_bounds msks n_masks left right xarray row_start col_start row_idx =
     list_all (in_bounds right msks xarray col_start (I2S left (row_idx + row_start)))
       [0 ..< nat n_masks]"

text \<open>The value of a row: the sum of the contributions of the masks.\<close>

definition row_total ::
  "(PetscInt \<Rightarrow> PetscInt \<Rightarrow> bool) \<Rightarrow> PetscInt list \<Rightarrow> PetscInt list \<Rightarrow> PetscInt list \<Rightarrow>
   PetscReal list \<Rightarrow> PetscInt \<Rightarrow> subspace \<Rightarrow> subspace \<Rightarrow> PetscScalar list \<Rightarrow>
   PetscInt \<Rightarrow> PetscInt \<Rightarrow> PetscInt \<Rightarrow> PetscScalar" where
  "row_total term_real msks offsets sgns rcoeffs n_masks left right xarray row_start col_start row_idx =
     sum_list (map (contribution term_real msks offsets sgns rcoeffs right xarray col_start
                      (I2S left (row_idx + row_start)))
       [0 ..< nat n_masks])"

text \<open>The value that the write of the local kernel leaves in a row.\<close>

definition local_value :: "subspace \<Rightarrow> PetscScalar \<Rightarrow> PetscScalar \<Rightarrow> PetscScalar" where
  "local_value right old val =
     (if SP right = SpinConserve_SP \<and> spinflip right then old + val else val)"

text \<open>All reads of both kernels of a multiply are defined.\<close>

definition MatMult_in_bounds :: "shell_context \<Rightarrow> Vec \<Rightarrow> PetscScalar list \<Rightarrow> Vec \<Rightarrow> bool" where
  "MatMult_in_bounds ctx x x_gathered b =
     (list_all (\<lambda>i. row_in_bounds (masks ctx) (nmasks_local ctx) (left_subspace_data ctx)
                      (right_subspace_data ctx) (array x) (own_start b) (own_start x) (int i))
        [0 ..< length (array b)]
      \<and> list_all (\<lambda>i. row_in_bounds (drop (nat (nmasks_local ctx)) (masks ctx))
                        (nmasks ctx - nmasks_local ctx) (left_subspace_data ctx)
                        (right_subspace_data ctx) x_gathered (own_start b) 0 (int i))
          [0 ..< length (array b)])"

text \<open>The output of a multiply: for every row the sum of the local and of the global phase.\<close>

definition MatMult_rows ::
  "(PetscInt \<Rightarrow> PetscInt \<Rightarrow> bool) \<Rightarrow> shell_context \<Rightarrow> Vec \<Rightarrow> PetscScalar list \<Rightarrow> Vec \<Rightarrow>
   PetscScalar list" where
  "MatMult_rows term_real ctx x x_gathered b =
     map (\<lambda>i. row_total term_real (masks ctx) (mask_offsets ctx) (signs ctx) (real_coeffs ctx)
                 (nmasks_local ctx) (left_subspace_data ctx) (right_subspace_data ctx)
                 (array x) (own_start b) (own_start x) (int i)
             + row_total term_real (drop (nat (nmasks_local ctx)) (masks ctx))
                 (drop (nat (nmasks_local ctx)) (mask_offsets ctx)) (signs ctx) (real_coeffs ctx)
                 (nmasks ctx - nmasks_local ctx) (left_subspace_data ctx) (right_subspace_data ctx)
                 x_gathered (own_start b) 0 (int i))
       [0 ..< length (array b)]"

text \<open>
  The sum of the absolute values of the subtotals of a row, and its maximum over the
  rows \<open>0, ..., M - 1\<close> (0 when there is no row).
\<close>

definition row_abs_sum :: "(PetscInt \<Rightarrow> PetscInt \<Rightarrow> bool) \<Rightarrow> shell_context \<Rightarrow> nat \<Rightarrow> PetscReal" where
  "row_abs_sum term_real ctx i =
     sum_list (map (\<lambda>mask_idx. cmod (subtotal term_real (masks ctx) (mask_offsets ctx) (signs ctx)
                                        (real_coeffs ctx) (I2S (left_subspace_data ctx) (int i)) mask_idx))
       [0 ..< nat (nmasks ctx)])"

definition norm_infinity :: "(PetscInt \<Rightarrow> PetscInt \<Rightarrow> bool) \<Rightarrow> shell_context \<Rightarrow> PetscInt \<Rightarrow> PetscReal" where
  "norm_infinity term_real ctx M = Max (set (0 # map (row_abs_sum term_real ctx) [0 ..< nat M]))"

text \<open>
  The dense matrix of the operator: the entry of row \<open>i\<close> and column \<open>j\<close> is the sum of
  the coefficients of the masks that send the state of row \<open>i\<close> to column \<open>j\<close>, which is
  what the multiply kernels multiply the entry \<open>j\<close> of the input by.
\<close>

definition dense_entry ::
  "(PetscInt \<Rightarrow> PetscInt \<Rightarrow> bool) \<Rightarrow> shell_context \<Rightarrow> nat \<Rightarrow> nat \<Rightarrow> PetscScalar" where
  "dense_entry term_real ctx i j =
     sum_list (map (coefficient term_real (masks ctx) (mask_offsets ctx) (signs ctx) (real_coeffs ctx)
                      (right_subspace_data ctx) (I2S (left_subspace_data ctx) (int i)))
       (filter (\<lambda>mask_idx. col_of (right_subspace_data ctx) (masks ctx)
                              (I2S (left_subspace_data ctx) (int i)) mask_idx = int j)
          [0 ..< nat (nmasks ctx)]))"

text \<open>The maximum absolute row sum of the dense matrix with \<open>M\<close> rows and \<open>N\<close> columns.\<close>

definition dense_row_sum ::
  "(PetscInt \<Rightarrow> PetscInt \<Rightarrow> bool) \<Rightarrow> shell_context \<Rightarrow> PetscInt \<Rightarrow> nat \<Rightarrow> PetscReal" where
  "dense_row_sum term_real ctx N i =
     sum_list (map (\<lambda>j. cmod (dense_entry term_real ctx i j)) [0 ..< nat N])"

definition dense_norm_infinity ::
  "(PetscInt \<Rightarrow> PetscInt \<Rightarrow> bool) \<Rightarrow> shell_context \<Rightarrow> PetscInt \<Rightarrow> PetscInt \<Rightarrow> PetscReal" where
  "dense_norm_infinity term_real ctx M N =
     Max (set (0 # map (dense_row_sum term_real ctx N) [0 ..< nat M]))"


text \<open>
  Contexts, encodings and vectors whose counts and lengths fit: the context has as many
  masks as it says and one offset more, and its local masks are some of them; a vector
  has as many entries as its ownership range.
\<close>

definition ctx_wf :: "shell_context \<Rightarrow> bool" where
  "ctx_wf ctx =
     (0 \<le> nmasks_local ctx \<and> nmasks_local ctx \<le> nmasks ctx
      \<and> length (masks ctx) = nat (nmasks ctx)
      \<and> length (mask_offsets ctx) = nat (nmasks ctx) + 1)"



section \<open>Examples\<close>

text \<open>
  Modelled from the spec: the subspace variants are not part of the sources at hand. The
  Full subspace of \<open>l\<close> spins is the identity mapping, of dimension \<open>2 ^ l\<close>.
\<close>

definition Full :: "PetscInt \<Rightarrow> subspace" where
  "Full l = \<lparr> SP = Full_SP, L = l, spinflip = False, Dim = 2 ^ nat l,
              I2S = (\<lambda>idx. idx), S2I = (\<lambda>state. (state, 1)) \<rparr>"

text \<open>
  Two spins: \<open>\<sigma>\<^sup>z\<^sub>0 \<sigma>\<^sup>z\<^sub>1 + \<sigma>\<^sup>y\<^sub>0 / 2 + \<sigma>\<^sup>x\<^sub>1 / 2\<close>. The term of mask 1 has an
  imaginary coefficient.
\<close>

definition msc_two_spins :: msc_t where
  "msc_two_spins = \<lparr> msc_nmasks = 3, msc_masks = [0, 1, 2], msc_mask_offsets = [0, 1, 2, 3],
                      msc_signs = [3, 1, 0], msc_coeffs = [1, Complex 0 (1 / 2), 1 / 2] \<rparr>"

text \<open>A classification for the examples: real when mask and sign mask share an even number of bits.\<close>

definition term_real_even :: "PetscInt \<Rightarrow> PetscInt \<Rightarrow> bool" where
  "term_real_even m s = even (popc (m AND s))"

text \<open>
  Modelled from the spec: the Explicit subspace is a list of basis states given by the
  caller; the index of a state is its position in the list, and -1 for a state that is
  not in the list.
\<close>

fun index_of :: "PetscInt \<Rightarrow> PetscInt list \<Rightarrow> PetscInt" where
  "index_of state [] = -1"
| "index_of state (s # states) =
     (if s = state then 0
      else (let i = index_of state states in if i = -1 then -1 else i + 1))"

definition Explicit :: "PetscInt \<Rightarrow> PetscInt list \<Rightarrow> subspace" where
  "Explicit l states = \<lparr> SP = Explicit_SP, L = l, spinflip = False, Dim = int (length states),
                          I2S = (\<lambda>idx. states ! nat idx),
                          S2I = (\<lambda>state. (index_of state states, 1)) \<rparr>"

text \<open>The operator \<open>\<sigma>\<^sup>x\<^sub>0\<close>: one mask, which flips spin 0, with one term.\<close>

definition msc_flip :: msc_t where
  "msc_flip = \<lparr> msc_nmasks = 1, msc_masks = [1], msc_mask_offsets = [0, 1],
                 msc_signs = [0], msc_coeffs = [1] \<rparr>"

text \<open>
  Modelled from the spec: a SpinConserve subspace of two spins with one spin up and the
  spinflip flag set folds the two states 01 and 10 onto the index 0, here both with the
  sign +1; the state 01 stands for the index.
\<close>

definition folded_pair :: subspace where
  "folded_pair = \<lparr> SP = SpinConserve_SP, L = 2, spinflip = True, Dim = 1,
                     I2S = (\<lambda>idx. 1),
                     S2I = (\<lambda>state. if state = 1 \<or> state = 2 then (0, 1) else (-1, 1)) \<rparr>"

text \<open>The operator \<open>\<sigma>\<^sup>x\<^sub>0 \<sigma>\<^sup>x\<^sub>1 - 1\<close>: the mask 0 with the coefficient -1 and the mask 3.\<close>

definition msc_exchange :: msc_t where
  "msc_exchange = \<lparr> msc_nmasks = 2, msc_masks = [0, 3], msc_mask_offsets = [0, 1, 2],
                     msc_signs = [0, 0], msc_coeffs = [-1, 1] \<rparr>"

text \<open>An input vector for three spins.\<close>

definition x8 :: "PetscScalar list" where
  "x8 = [1, 2, 3, 4, 5, 6, 7, 8]"

subsection \<open>Simulated processes\<close>

text \<open>
  The layout of PETSc: \<^verbatim>\<open>PetscSplitOwnership\<close> gives the process \<open>rank\<close> of \<open>mpi_size\<close>
  processes \<open>N / mpi_size\<close> entries of a vector of length \<open>N\<close>, and one more to the first
  \<open>N % mpi_size\<close> processes; the ranges of the processes follow each other.
\<close>

definition PetscSplitOwnership :: "int \<Rightarrow> int \<Rightarrow> PetscInt \<Rightarrow> PetscInt" where
  "PetscSplitOwnership mpi_size rank N =
     N div mpi_size + (if N mod mpi_size > rank then 1 else 0)"

definition ownership_start :: "int \<Rightarrow> nat \<Rightarrow> PetscInt \<Rightarrow> PetscInt" where
  "ownership_start mpi_size rank N =
     sum_list (map (\<lambda>r. PetscSplitOwnership mpi_size (int r) N) [0 ..< rank])"

text \<open>The part of a vector that a process owns.\<close>

definition rank_Vec :: "int \<Rightarrow> nat \<Rightarrow> PetscScalar list \<Rightarrow> Vec" where
  "rank_Vec mpi_size rank xs =
     (let start = ownership_start mpi_size rank (int (length xs));
          n = PetscSplitOwnership mpi_size (int rank) (int (length xs))
      in \<lparr> own_start = start, own_end = start + n,
           array = take (nat n) (drop (nat start) xs) \<rparr>)"

text \<open>
  The multiply of one process of \<open>mpi_size\<close>: it builds the context, owns its part of
  the input \<open>xs\<close> and of the output, and returns the rows it owns.
\<close>

definition multiply_rank ::
  "(PetscInt \<Rightarrow> PetscInt \<Rightarrow> bool) \<Rightarrow> msc_t \<Rightarrow> subspace \<Rightarrow> subspace \<Rightarrow> int \<Rightarrow> PetscScalar list \<Rightarrow>
   nat \<Rightarrow> error + PetscScalar list" where
  "multiply_rank term_real msc left right mpi_size xs rank =
     (let ctx = BuildContext_CUDA msc left right mpi_size;
          x = rank_Vec mpi_size rank xs;
          b = rank_Vec mpi_size rank (replicate (nat (Dim left)) 0)
      in case MatMult_GPU term_real ctx x xs b of
           Inl e \<Rightarrow> Inl e
         | Inr r \<Rightarrow> Inr (array (snd r)))"

text \<open>The output of all processes, one after the other; an error if a process fails.\<close>

fun collect :: "(error + PetscScalar list) list \<Rightarrow> error + PetscScalar list" where
  "collect [] = Inr []"
| "collect (Inl e # rs) = Inl e"
| "collect (Inr ys # rs) = (case collect rs of Inl e \<Rightarrow> Inl e | Inr zs \<Rightarrow> Inr (ys @ zs))"

definition multiply ::
  "(PetscInt \<Rightarrow> PetscInt \<Rightarrow> bool) \<Rightarrow> msc_t \<Rightarrow> subspace \<Rightarrow> subspace \<Rightarrow> nat \<Rightarrow> PetscScalar list \<Rightarrow>
   error + PetscScalar list" where
  "multiply term_real msc left right mpi_size xs =
     collect (map (multiply_rank term_real msc left right (int mpi_size) xs) [0 ..< mpi_size])"

section \<open>Properties of the term loop\<close>

lemma and_one_parity: "real_of_int (k AND 1) = (if even k then 0 else 1)"
  by (simp add: and_one_eq odd_iff_mod_2_eq_one)

lemma term_step_parity_sign:
  "term_step term_real sgns rcoeffs m (ket XOR m) tmp t =
     (if term_real m (sgns ! nat t)
      then add_real tmp (parity_sign ket m (sgns ! nat t) * rcoeffs ! nat t)
      else add_imag tmp (parity_sign ket m (sgns ! nat t) * rcoeffs ! nat t))"
  by (simp add: term_step_def parity_sign_def and_one_parity Let_def)

lemma term_step_signed:
  "term_step term_real sgns rcoeffs m (ket XOR m) tmp t =
     tmp + signed_term term_real sgns rcoeffs ket m t"
  by (simp add: term_step_parity_sign signed_term_def add_real_def add_imag_def
      complex_eq_iff Let_def)

lemma foldl_term_step:
  "foldl (term_step term_real sgns rcoeffs m (ket XOR m)) acc ts =
     acc + sum_list (map (signed_term term_real sgns rcoeffs ket m) ts)"
  by (induction ts arbitrary: acc) (simp_all add: term_step_signed add.assoc)

lemma term_loop_subtotal:
  "term_loop term_real msks offsets sgns rcoeffs ket mask_idx =
     subtotal term_real msks offsets sgns rcoeffs ket mask_idx"
  by (simp add: term_loop_def subtotal_def foldl_term_step Let_def)

lemma foldl_add_sum_list:
  "foldl (\<lambda>s i. s + f i) (acc::real) is = acc + sum_list (map f is)"
  by (induction "is" arbitrary: acc) (simp_all add: add.assoc)

lemma row_sum_subtotal:
  "row_sum term_real msks offsets sgns rcoeffs n_masks left row_idx =
     sum_list (map (\<lambda>mask_idx. cmod (subtotal term_real msks offsets sgns rcoeffs
                                        (I2S left row_idx) mask_idx))
       [0 ..< nat n_masks])"
  by (simp add: row_sum_def Let_def term_loop_subtotal foldl_add_sum_list)


section \<open>Properties of the context\<close>

lemma BuildContext_real_coeffs:
  "i < nat (msc_mask_offsets msc ! nat (msc_nmasks msc)) \<Longrightarrow>
     real_coeffs (BuildContext_CUDA msc left right mpi_size) ! i =
       (if Re (msc_coeffs msc ! i) \<noteq> 0 then Re (msc_coeffs msc ! i) else Im (msc_coeffs msc ! i))"
  by (simp add: BuildContext_CUDA_def Let_def)

text \<open>
  C4. The coefficient stored for a term is the real part of its complex coefficient when
  that is not zero, and the imaginary part otherwise; a step of the term loop adds the
  signed stored coefficient to the real accumulator alone when the classification of the
  mask and the sign mask says real, and to the imaginary accumulator alone otherwise.
\<close>

theorem stored_coefficient_goes_to_one_accumulator:
  assumes "i < nat (msc_mask_offsets msc ! nat (msc_nmasks msc))"
  shows "real_coeffs (BuildContext_CUDA msc left right mpi_size) ! i =
           (if Re (msc_coeffs msc ! i) \<noteq> 0 then Re (msc_coeffs msc ! i)
            else Im (msc_coeffs msc ! i))
       \<and> term_step term_real (signs (BuildContext_CUDA msc left right mpi_size))
            (real_coeffs (BuildContext_CUDA msc left right mpi_size)) m bra tmp (int i) =
           (let stored = (if Re (msc_coeffs msc ! i) \<noteq> 0 then Re (msc_coeffs msc ! i)
                          else Im (msc_coeffs msc ! i));
                sign = 1 - 2 * real_of_int
                         (popc (bra AND signs (BuildContext_CUDA msc left right mpi_size) ! i) AND 1)
            in if term_real m (signs (BuildContext_CUDA msc left right mpi_size) ! i)
               then Complex (Re tmp + sign * stored) (Im tmp)
               else Complex (Re tmp) (Im tmp + sign * stored))"
  using BuildContext_real_coeffs [OF assms, of left right mpi_size]
  by (simp add: term_step_def add_real_def add_imag_def Let_def)

theorem stored_coefficient_goes_to_one_accumulator_witness:
  "(1::nat) < nat (msc_mask_offsets msc_two_spins ! nat (msc_nmasks msc_two_spins))
   \<and> real_coeffs (BuildContext_CUDA msc_two_spins (Full 2) (Full 2) 1) ! 1 = 1 / 2
   \<and> term_step term_real_even (signs (BuildContext_CUDA msc_two_spins (Full 2) (Full 2) 1))
        (real_coeffs (BuildContext_CUDA msc_two_spins (Full 2) (Full 2) 1)) 1 0 0 1 = Complex 0 (1 / 2)"
proof -
  have h: "(1::nat) < nat (msc_mask_offsets msc_two_spins ! nat (msc_nmasks msc_two_spins))"
    by (simp add: msc_two_spins_def)
  have s: "signs (BuildContext_CUDA msc_two_spins (Full 2) (Full 2) 1) ! Suc 0 = 1"
    by (simp add: BuildContext_CUDA_def msc_two_spins_def)
  have p: "popc 1 = 1" "popc 0 = 0"
    by (simp_all add: popc_def popcount.simps)
  have c: "msc_coeffs msc_two_spins ! Suc 0 = Complex 0 (1 / 2)"
    "msc_coeffs msc_two_spins ! 1 = Complex 0 (1 / 2)"
    by (simp_all add: msc_two_spins_def)
  show ?thesis
    using h stored_coefficient_goes_to_one_accumulator
            [OF h, of "Full 2" "Full 2" 1 term_real_even 1 0 0]
    by (simp add: s p c term_real_even_def Let_def)
qed

section \<open>Properties of the norm\<close>

text \<open>
  C6. For every norm type but \<open>NORM_INFINITY\<close>, \<open>MatNorm_GPU\<close> returns the error at
  once: whatever the context holds, cached norm or not, and whatever the operator is, the
  result is the error and the context as it was.
\<close>

theorem MatNorm_GPU_unsupported_type:
  "type \<noteq> NORM_INFINITY \<Longrightarrow>
     MatNorm_GPU term_real ctx M type = (Inl PETSC_ERR_ARG_OUTOFRANGE, ctx)"
  by (simp add: MatNorm_GPU_def)

theorem MatNorm_GPU_unsupported_type_witness:
  "NORM_FROBENIUS \<noteq> NORM_INFINITY
   \<and> MatNorm_GPU term_real_even (BuildContext_CUDA msc_two_spins (Full 2) (Full 2) 1) 4 NORM_FROBENIUS =
       (Inl PETSC_ERR_ARG_OUTOFRANGE, BuildContext_CUDA msc_two_spins (Full 2) (Full 2) 1)"
  using MatNorm_GPU_unsupported_type
          [of NORM_FROBENIUS term_real_even "BuildContext_CUDA msc_two_spins (Full 2) (Full 2) 1" 4]
  by simp

section \<open>The rows of a launch\<close>

lemma thread_rows_set:
  "0 < bd \<Longrightarrow> set (thread_rows bd stop r) = {x. r \<le> x \<and> x < stop \<and> (x - r) mod bd = 0}"
proof (induction bd stop r rule: thread_rows.induct)
  case (1 bd stop r)
  show ?case
  proof (cases "r < stop")
    case False
    then show ?thesis
      by (subst thread_rows.simps) auto
  next
    case True
    have ih: "set (thread_rows bd stop (r + bd)) =
        {x. r + bd \<le> x \<and> x < stop \<and> (x - (r + bd)) mod bd = 0}"
      using "1.IH" "1.prems" True by simp
    have eq: "(x - (r + bd)) mod bd = (x - r) mod bd" for x
      by (metis diff_diff_eq minus_mod_self2)
    have far: "r + bd \<le> x" if "r \<le> x" "x \<noteq> r" "(x - r) mod bd = 0" for x
    proof -
      have "bd dvd (x - r)" using that(3) by (simp add: dvd_eq_mod_eq_0)
      moreover have "0 < x - r" using that(1,2) by simp
      ultimately have "bd \<le> x - r" by (rule zdvd_imp_le)
      then show ?thesis by simp
    qed
    have "set (thread_rows bd stop r) = insert r (set (thread_rows bd stop (r + bd)))"
      using True "1.prems" by (subst thread_rows.simps) simp
    also have "\<dots> = {x. r \<le> x \<and> x < stop \<and> (x - r) mod bd = 0}"
      unfolding ih eq using True "1.prems" far by auto
    finally show ?thesis .
  qed
qed

lemma thread_rows_distinct: "distinct (thread_rows bd stop r)"
proof (induction bd stop r rule: thread_rows.induct)
  case (1 bd stop r)
  show ?case
  proof (cases "0 < bd \<and> r < stop")
    case False
    then show ?thesis
      by (subst thread_rows.simps) auto
  next
    case True
    have "r \<notin> set (thread_rows bd stop (r + bd))"
      using True by (simp add: thread_rows_set)
    then show ?thesis
      using True "1.IH" by (subst thread_rows.simps) simp
  qed
qed

lemma seq_run_append:
  "seq_run f (xs @ ys) s = (case seq_run f xs s of Inl e \<Rightarrow> Inl e | Inr s' \<Rightarrow> seq_run f ys s')"
  by (induction xs arbitrary: s) (simp_all split: sum.splits)

lemma seq_run_concat:
  "seq_run (\<lambda>a. seq_run f (rows a)) as s = seq_run f (concat (map rows as)) s"
  by (induction as arbitrary: s) (simp_all add: seq_run_append split: sum.splits)

lemma entries_per_group_pos:
  assumes "0 < g" "0 \<le> sz"
  shows "0 < entries_per_group sz g" and "sz \<le> int g * entries_per_group sz g"
proof -
  consider "sz = 0" | "1 \<le> sz" using assms(2) by linarith
  then have "0 < entries_per_group sz g \<and> sz \<le> int g * entries_per_group sz g"
  proof cases
    case 1
    have "c_div (-1) (int g) = - (1 div int g)"
      using assms(1) by (simp add: c_div_def)
    moreover have "1 div int g = (if g = 1 then 1 else 0)"
      using assms(1) by (auto simp: div_pos_pos_trivial)
    ultimately have "entries_per_group sz g = 1"
      using 1 by (simp add: entries_per_group_def)
    then show ?thesis using 1 assms(1) by simp
  next
    case 2
    have cd: "c_div (sz - 1) (int g) = (sz - 1) div int g"
      using 2 assms(1) by (cases "sz = 1") (simp_all add: c_div_def)
    have nonneg: "0 \<le> (sz - 1) div int g"
      using 2 assms(1) by (simp add: pos_imp_zdiv_nonneg_iff)
    then have e: "entries_per_group sz g = (sz - 1) div int g + 1"
      by (simp add: entries_per_group_def cd Let_def)
    have "sz - 1 = int g * ((sz - 1) div int g) + (sz - 1) mod int g"
      by simp
    moreover have "(sz - 1) mod int g < int g"
      using assms(1) by simp
    ultimately have "sz - 1 < int g * ((sz - 1) div int g) + int g"
      by linarith
    then have "sz \<le> int g * ((sz - 1) div int g + 1)"
      by (simp add: algebra_simps)
    then show ?thesis using e nonneg by simp
  qed
  then show "0 < entries_per_group sz g" and "sz \<le> int g * entries_per_group sz g"
    by simp_all
qed

lemma distinct_concat_map:
  assumes "distinct as"
    and "\<And>a. a \<in> set as \<Longrightarrow> distinct (f a)"
    and "\<And>a a'. a \<in> set as \<Longrightarrow> a' \<in> set as \<Longrightarrow> a \<noteq> a' \<Longrightarrow> set (f a) \<inter> set (f a') = {}"
  shows "distinct (concat (map f as))"
  using assms
proof (induction as)
  case Nil
  then show ?case by simp
next
  case (Cons a as)
  have "distinct (concat (map f as))"
    using Cons by simp
  moreover have "set (f a) \<inter> set (f a') = {}" if "a' \<in> set as" for a'
    using Cons.prems(1) Cons.prems(3)[of a a'] that by auto
  ultimately show ?case
    using Cons.prems(2)[of a] by auto
qed

lemma thread_rows_mem:
  assumes "0 < bd"
  shows "x \<in> set (thread_rows (int bd) (vec_stop_index sz g b) (vec_start_index sz g b + int t)) \<longleftrightarrow>
         int b * entries_per_group sz g + int t \<le> x \<and> x < (int b + 1) * entries_per_group sz g \<and>
         x < sz \<and> (x - int b * entries_per_group sz g - int t) mod int bd = 0"
  using assms by (auto simp: thread_rows_set vec_stop_index_def vec_start_index_def algebra_simps)

lemma kernel_rows_distinct:
  assumes "0 < g" "0 < bd" "0 \<le> sz"
  shows "distinct (kernel_rows g bd sz)"
  unfolding kernel_rows_def
proof (rule distinct_concat_map)
  show "distinct (List.product [0..<g] [0..<bd])"
    by (simp add: distinct_product)
next
  fix a show "distinct (thread_rows (int bd) (vec_stop_index sz g (fst a))
      (vec_start_index sz g (fst a) + int (snd a)))"
    by (rule thread_rows_distinct)
next
  fix a a' :: "nat \<times> nat"
  assume a: "a \<in> set (List.product [0..<g] [0..<bd])"
    and a': "a' \<in> set (List.product [0..<g] [0..<bd])" and ne: "a \<noteq> a'"
  obtain b t where [simp]: "a = (b, t)" by (cases a)
  obtain b' t' where [simp]: "a' = (b', t')" by (cases a')
  let ?e = "entries_per_group sz g"
  have e: "0 < ?e" using assms(1,3) by (rule entries_per_group_pos(1))
  have t: "t < bd" "t' < bd" using a a' by simp_all
  have False if x: "x \<in> set (thread_rows (int bd) (vec_stop_index sz g b) (vec_start_index sz g b + int t))"
    and x': "x \<in> set (thread_rows (int bd) (vec_stop_index sz g b') (vec_start_index sz g b' + int t'))"
    for x
  proof -
    have m: "int b * ?e + int t \<le> x" "x < (int b + 1) * ?e"
      "(x - int b * ?e - int t) mod int bd = 0"
      using x assms(2) by (simp_all add: thread_rows_mem)
    have m': "int b' * ?e + int t' \<le> x" "x < (int b' + 1) * ?e"
      "(x - int b' * ?e - int t') mod int bd = 0"
      using x' assms(2) by (simp_all add: thread_rows_mem)
    have "b = b'"
    proof (rule ccontr)
      assume "b \<noteq> b'"
      then consider "b < b'" | "b' < b" by linarith
      then show False
      proof cases
        case 1
        then have "(int b + 1) * ?e \<le> int b' * ?e"
          using e by (intro mult_right_mono) simp_all
        then show False using m m' by linarith
      next
        case 2
        then have "(int b' + 1) * ?e \<le> int b * ?e"
          using e by (intro mult_right_mono) simp_all
        then show False using m m' by linarith
      qed
    qed
    then have d1: "int bd dvd (x - int b * ?e - int t)" and d2: "int bd dvd (x - int b * ?e - int t')"
      using m(3) m'(3) by (simp_all add: dvd_eq_mod_eq_0)
    have "int bd dvd ((x - int b * ?e - int t') - (x - int b * ?e - int t))"
      by (rule dvd_diff[OF d2 d1])
    then have d: "int bd dvd (int t - int t')" by (simp add: algebra_simps)
    have "int t - int t' = 0"
    proof (rule ccontr)
      assume nz: "int t - int t' \<noteq> 0"
      have "int bd \<le> \<bar>int t - int t'\<bar>"
        using d nz dvd_imp_le_int by presburger
      then show False using t by linarith
    qed
    then show False using ne \<open>b = b'\<close> by simp
  qed
  then show "set (thread_rows (int bd) (vec_stop_index sz g (fst a)) (vec_start_index sz g (fst a) + int (snd a))) \<inter>
        set (thread_rows (int bd) (vec_stop_index sz g (fst a')) (vec_start_index sz g (fst a') + int (snd a'))) = {}"
    by auto
qed

lemma kernel_rows_set:
  assumes "0 < g" "0 < bd" "0 \<le> sz"
  shows "set (kernel_rows g bd sz) = {0 ..< sz}"
proof (rule set_eqI)
  fix x
  let ?e = "entries_per_group sz g"
  have e: "0 < ?e" using assms(1,3) by (rule entries_per_group_pos(1))
  have cover: "sz \<le> int g * ?e" using assms(1,3) by (rule entries_per_group_pos(2))
  have mem: "x \<in> set (kernel_rows g bd sz) \<longleftrightarrow>
      (\<exists>b<g. \<exists>t<bd. x \<in> set (thread_rows (int bd) (vec_stop_index sz g b) (vec_start_index sz g b + int t)))"
    by (simp add: kernel_rows_def Bex_def)
  show "x \<in> set (kernel_rows g bd sz) \<longleftrightarrow> x \<in> {0 ..< sz}"
  proof
    assume "x \<in> set (kernel_rows g bd sz)"
    then obtain b t where "b < g" "t < bd"
      "x \<in> set (thread_rows (int bd) (vec_stop_index sz g b) (vec_start_index sz g b + int t))"
      using mem by blast
    then have "int b * ?e + int t \<le> x" "x < sz"
      using assms(2) by (simp_all add: thread_rows_mem)
    moreover have "0 \<le> int b * ?e" using e by simp
    ultimately show "x \<in> {0 ..< sz}" by simp
  next
    assume "x \<in> {0 ..< sz}"
    then have x: "0 \<le> x" "x < sz" by simp_all
    define b where "b = nat (x div ?e)"
    define t where "t = nat ((x - int b * ?e) mod int bd)"
    have bnn: "0 \<le> x div ?e" using x e by (simp add: pos_imp_zdiv_nonneg_iff)
    then have ib: "int b = x div ?e" by (simp add: b_def)
    have dm: "?e * (x div ?e) = x - x mod ?e"
      by (simp add: minus_mod_eq_mult_div)
    have md: "0 \<le> x mod ?e" "x mod ?e < ?e" using e by simp_all
    have "x div ?e < int g"
    proof (rule ccontr)
      assume "\<not> x div ?e < int g"
      then have "int g * ?e \<le> (x div ?e) * ?e"
        using e by (intro mult_right_mono) simp_all
      moreover have "?e * (x div ?e) \<le> x" using dm md by linarith
      ultimately show False using x cover by (simp add: mult.commute)
    qed
    then have bg: "b < g" using ib by linarith
    have "?e * (x div ?e) \<le> x" using dm md by linarith
    then have lo: "int b * ?e \<le> x" unfolding ib
      by (simp add: mult.commute)
    have "x < ?e * (x div ?e) + ?e" using dm md by linarith
    then have hi: "x < (int b + 1) * ?e" unfolding ib
      by (simp add: algebra_simps)
    have tnn: "0 \<le> (x - int b * ?e) mod int bd" using assms(2) by simp
    then have it: "int t = (x - int b * ?e) mod int bd" by (simp add: t_def)
    have "(x - int b * ?e) mod int bd < int bd" using assms(2) by simp
    then have tb: "t < bd" using it by linarith
    have "(x - int b * ?e) mod int bd \<le> x - int b * ?e"
      using lo assms(2) by (intro zmod_le_nonneg_dividend) simp
    then have c1: "int b * ?e + int t \<le> x" using it by linarith
    have c2: "(x - int b * ?e - int t) mod int bd = 0"
      unfolding it by (simp add: minus_mod_eq_mult_div)
    have "x \<in> set (thread_rows (int bd) (vec_stop_index sz g b) (vec_start_index sz g b + int t))"
      using c1 hi x(2) c2 assms(2) by (simp add: thread_rows_mem)
    then show "x \<in> set (kernel_rows g bd sz)"
      using mem bg tb by blast
  qed
qed

lemma fst_lookup_col: "fst (lookup_col right bra tmp) = fst (S2I right bra)"
  by (simp add: lookup_col_def)

lemma mask_loop_step:
  "mask_loop term_real msks offsets sgns rcoeffs right xarray col_start ket (mask_idx # rest) val =
     (if in_bounds right msks xarray col_start ket mask_idx
      then mask_loop term_real msks offsets sgns rcoeffs right xarray col_start ket rest
             (val + contribution term_real msks offsets sgns rcoeffs right xarray col_start ket mask_idx)
      else Inl OutOfBounds)"
  by (auto simp: in_bounds_def contribution_def coefficient_def col_of_def fst_lookup_col
      term_loop_subtotal read_x_def Let_def)

lemma mask_loop_closed:
  "mask_loop term_real msks offsets sgns rcoeffs right xarray col_start ket ks val =
     (if list_all (in_bounds right msks xarray col_start ket) ks
      then Inr (val + sum_list (map (contribution term_real msks offsets sgns rcoeffs right xarray
                                       col_start ket) ks))
      else Inl OutOfBounds)"
proof (induction ks arbitrary: val)
  case Nil
  show ?case by simp
next
  case (Cons k ks)
  show ?case
    by (simp only: mask_loop_step Cons.IH) (simp add: add.assoc)
qed

lemma row_val_closed:
  "row_val term_real msks offsets sgns rcoeffs n_masks left right xarray row_start col_start row_idx =
     (if row_in_bounds msks n_masks left right xarray row_start col_start row_idx
      then Inr (row_total term_real msks offsets sgns rcoeffs n_masks left right xarray
                  row_start col_start row_idx)
      else Inl OutOfBounds)"
  by (simp add: row_val_def row_in_bounds_def row_total_def mask_loop_closed Let_def)

lemma seq_run_rows_ok:
  assumes "distinct rows" and "\<forall>r\<in>set rows. 0 \<le> r \<and> r < int (length b)"
    and "\<forall>r\<in>set rows. val r = Inr (v r)"
  shows "seq_run (\<lambda>row b. case val row of Inl e \<Rightarrow> Inl e
                          | Inr x \<Rightarrow> Inr (b[nat row := w (b ! nat row) x])) rows b =
         Inr (map (\<lambda>i. if int i \<in> set rows then w (b ! i) (v (int i)) else b ! i) [0 ..< length b])"
  using assms
proof (induction rows arbitrary: b)
  case Nil
  show ?case by (simp add: map_nth)
next
  case (Cons r rows)
  let ?b' = "b[nat r := w (b ! nat r) (v r)]"
  have r: "0 \<le> r" "nat r < length b" "r \<notin> set rows" "val r = Inr (v r)"
    using Cons.prems by auto
  have ih: "seq_run (\<lambda>row b. case val row of Inl e \<Rightarrow> Inl e
                          | Inr x \<Rightarrow> Inr (b[nat row := w (b ! nat row) x])) rows ?b' =
         Inr (map (\<lambda>i. if int i \<in> set rows then w (?b' ! i) (v (int i)) else ?b' ! i) [0 ..< length ?b'])"
    using Cons.prems by (intro Cons.IH) auto
  have "map (\<lambda>i. if int i \<in> set rows then w (?b' ! i) (v (int i)) else ?b' ! i) [0 ..< length ?b'] =
        map (\<lambda>i. if int i \<in> set (r # rows) then w (b ! i) (v (int i)) else b ! i) [0 ..< length b]"
  proof (rule nth_equalityI)
    show "length (map (\<lambda>i. if int i \<in> set rows then w (?b' ! i) (v (int i)) else ?b' ! i) [0 ..< length ?b']) =
        length (map (\<lambda>i. if int i \<in> set (r # rows) then w (b ! i) (v (int i)) else b ! i) [0 ..< length b])"
      by simp
  next
    fix i assume "i < length (map (\<lambda>i. if int i \<in> set rows then w (?b' ! i) (v (int i)) else ?b' ! i) [0 ..< length ?b'])"
    then have i: "i < length b" by simp
    show "map (\<lambda>i. if int i \<in> set rows then w (?b' ! i) (v (int i)) else ?b' ! i) [0 ..< length ?b'] ! i =
        map (\<lambda>i. if int i \<in> set (r # rows) then w (b ! i) (v (int i)) else b ! i) [0 ..< length b] ! i"
    proof (cases "i = nat r")
      case True
      then have "int i = r" using r(1) by simp
      then show ?thesis using i r True by simp
    next
      case False
      then have "int i \<noteq> r" using r(1) by auto
      then show ?thesis using i False by simp
    qed
  qed
  then show ?case using ih r(4) by simp
qed

lemma seq_run_rows_fail:
  assumes "r \<in> set rows" and "val r = Inl OutOfBounds"
    and "\<And>r e. val r = Inl e \<Longrightarrow> e = OutOfBounds"
  shows "seq_run (\<lambda>row b. case val row of Inl e \<Rightarrow> Inl e
                          | Inr x \<Rightarrow> Inr (f b row x)) rows b = Inl OutOfBounds"
  using assms(1)
proof (induction rows arbitrary: b)
  case Nil
  then show ?case by simp
next
  case (Cons a rows)
  show ?case
  proof (cases "val a")
    case (Inl e)
    then show ?thesis using assms(3) by simp
  next
    case (Inr x)
    then have "a \<noteq> r" using assms(2) by auto
    then have "r \<in> set rows" using Cons.prems by simp
    then show ?thesis using Cons.IH Inr by simp
  qed
qed

lemma Complex_add_parts: "Complex (Re a + Re v) (Im a + Im v) = a + v"
  by (simp add: complex_eq_iff)

lemma write_local_eq:
  "write_local right b row v = b[nat row := local_value right (b ! nat row) v]"
  by (simp add: write_local_def local_value_def Complex_add_parts)

lemma write_global_eq:
  "write_global right b row v = b[nat row := b ! nat row + v]"
  by (simp add: write_global_def Complex_add_parts)

lemma seq_run_kernel_rows:
  assumes "0 < g" "0 < bd" "0 \<le> sz" "length b = nat sz"
    and val: "\<And>r. val r = (if ok r then Inr (v r) else Inl OutOfBounds)"
  shows "seq_run (\<lambda>row b. case val row of Inl e \<Rightarrow> Inl e
                          | Inr x \<Rightarrow> Inr (b[nat row := w (b ! nat row) x])) (kernel_rows g bd sz) b =
         (if list_all (\<lambda>i. ok (int i)) [0 ..< length b]
          then Inr (map (\<lambda>i. w (b ! i) (v (int i))) [0 ..< length b])
          else Inl OutOfBounds)"
proof (cases "list_all (\<lambda>i. ok (int i)) [0 ..< length b]")
  case True
  have set: "set (kernel_rows g bd sz) = {0 ..< sz}"
    using assms(1-3) by (rule kernel_rows_set)
  have ok: "ok r" if "r \<in> set (kernel_rows g bd sz)" for r
  proof -
    have "0 \<le> r" "nat r < length b" using that set assms(4) by auto
    then show ?thesis using True by (auto simp: list_all_iff dest!: bspec[where x="nat r"])
  qed
  have "seq_run (\<lambda>row b. case val row of Inl e \<Rightarrow> Inl e
                          | Inr x \<Rightarrow> Inr (b[nat row := w (b ! nat row) x])) (kernel_rows g bd sz) b =
      Inr (map (\<lambda>i. if int i \<in> set (kernel_rows g bd sz) then w (b ! i) (v (int i)) else b ! i)
             [0 ..< length b])"
  proof (rule seq_run_rows_ok)
    show "distinct (kernel_rows g bd sz)" using assms(1-3) by (rule kernel_rows_distinct)
    show "\<forall>r\<in>set (kernel_rows g bd sz). 0 \<le> r \<and> r < int (length b)"
      using set assms(3,4) by auto
    show "\<forall>r\<in>set (kernel_rows g bd sz). val r = Inr (v r)"
      using ok val by simp
  qed
  moreover have "map (\<lambda>i. if int i \<in> set (kernel_rows g bd sz) then w (b ! i) (v (int i)) else b ! i)
             [0 ..< length b] = map (\<lambda>i. w (b ! i) (v (int i))) [0 ..< length b]"
    using set assms(3,4) by (intro map_cong) auto
  ultimately show ?thesis using True by simp
next
  case False
  then obtain i where i: "i < length b" "\<not> ok (int i)"
    by (auto simp: list_all_iff)
  have "int i \<in> set (kernel_rows g bd sz)"
    using i(1) assms(3,4) kernel_rows_set[OF assms(1-3)] by auto
  moreover have "val (int i) = Inl OutOfBounds" using i(2) val by simp
  moreover have "e = OutOfBounds" if "val r = Inl e" for r e
    using that val[of r] by (simp split: if_splits)
  ultimately have "seq_run (\<lambda>row b. case val row of Inl e \<Rightarrow> Inl e
                          | Inr x \<Rightarrow> Inr ((\<lambda>b row x. b[nat row := w (b ! nat row) x]) b row x))
                     (kernel_rows g bd sz) b = Inl OutOfBounds"
    by (rule seq_run_rows_fail)
  then show ?thesis using False by simp
qed

lemma launch_kernel_rows:
  assumes "\<And>blockIdx threadIdx. kern g bd blockIdx threadIdx =
             seq_run body (thread_rows (int bd) (vec_stop_index sz g blockIdx)
                             (vec_start_index sz g blockIdx + int threadIdx))"
  shows "launch g bd kern s = seq_run body (kernel_rows g bd sz) s"
proof -
  have "launch g bd kern s =
      seq_run (\<lambda>bt. seq_run body (thread_rows (int bd) (vec_stop_index sz g (fst bt))
                             (vec_start_index sz g (fst bt) + int (snd bt))))
        (List.product [0 ..< g] [0 ..< bd]) s"
    by (simp add: launch_def assms)
  then show ?thesis
    by (simp add: seq_run_concat kernel_rows_def)
qed

lemma launch_local_closed:
  assumes "0 < g" "0 < bd" "row_start \<le> row_end" "length barray = nat (row_end - row_start)"
  shows "launch g bd (device_MatMult_local term_real msks offsets sgns rcoeffs n_masks left right
                        xarray row_start row_end col_start) barray =
         (if list_all (\<lambda>i. row_in_bounds msks n_masks left right xarray row_start col_start (int i))
               [0 ..< length barray]
          then Inr (map (\<lambda>i. local_value right (barray ! i)
                               (row_total term_real msks offsets sgns rcoeffs n_masks left right
                                  xarray row_start col_start (int i)))
                      [0 ..< length barray])
          else Inl OutOfBounds)"
proof -
  have "launch g bd (device_MatMult_local term_real msks offsets sgns rcoeffs n_masks left right
                        xarray row_start row_end col_start) barray =
      seq_run (\<lambda>row_idx b.
              case row_val term_real msks offsets sgns rcoeffs n_masks left right xarray
                     row_start col_start row_idx of
                Inl e \<Rightarrow> Inl e
              | Inr val \<Rightarrow> Inr (b[nat row_idx := local_value right (b ! nat row_idx) val]))
        (kernel_rows g bd (row_end - row_start)) barray"
    by (rule launch_kernel_rows) (rule ext, simp add: device_MatMult_local_def write_local_eq Let_def cong: sum.case_cong)
  also have "\<dots> = (if list_all (\<lambda>i. row_in_bounds msks n_masks left right xarray row_start col_start (int i))
               [0 ..< length barray]
          then Inr (map (\<lambda>i. local_value right (barray ! i)
                               (row_total term_real msks offsets sgns rcoeffs n_masks left right
                                  xarray row_start col_start (int i)))
                      [0 ..< length barray])
          else Inl OutOfBounds)"
    using assms by (intro seq_run_kernel_rows) (simp_all add: row_val_closed)
  finally show ?thesis .
qed

lemma launch_global_closed:
  assumes "0 < g" "0 < bd" "row_start \<le> row_end" "length barray = nat (row_end - row_start)"
  shows "launch g bd (device_MatMult_global term_real msks offsets sgns rcoeffs n_masks left right
                        x_allarray row_start row_end) barray =
         (if list_all (\<lambda>i. row_in_bounds msks n_masks left right x_allarray row_start 0 (int i))
               [0 ..< length barray]
          then Inr (map (\<lambda>i. barray ! i +
                               row_total term_real msks offsets sgns rcoeffs n_masks left right
                                  x_allarray row_start 0 (int i))
                      [0 ..< length barray])
          else Inl OutOfBounds)"
proof -
  have "launch g bd (device_MatMult_global term_real msks offsets sgns rcoeffs n_masks left right
                        x_allarray row_start row_end) barray =
      seq_run (\<lambda>row_idx b.
              case row_val term_real msks offsets sgns rcoeffs n_masks left right x_allarray
                     row_start 0 row_idx of
                Inl e \<Rightarrow> Inl e
              | Inr val \<Rightarrow> Inr (b[nat row_idx := (\<lambda>old v. old + v) (b ! nat row_idx) val]))
        (kernel_rows g bd (row_end - row_start)) barray"
    by (rule launch_kernel_rows) (rule ext, simp add: device_MatMult_global_def write_global_eq Let_def cong: sum.case_cong)
  also have "\<dots> = (if list_all (\<lambda>i. row_in_bounds msks n_masks left right x_allarray row_start 0 (int i))
               [0 ..< length barray]
          then Inr (map (\<lambda>i. (\<lambda>old v. old + v) (barray ! i)
                               (row_total term_real msks offsets sgns rcoeffs n_masks left right
                                  x_allarray row_start 0 (int i)))
                      [0 ..< length barray])
          else Inl OutOfBounds)"
    using assms by (intro seq_run_kernel_rows) (simp_all add: row_val_closed)
  finally show ?thesis by simp
qed

lemma GPU_dims: "0 < GPU_BLOCK_NUM" "0 < GPU_BLOCK_SIZE"
  by (simp_all add: GPU_BLOCK_NUM_def GPU_BLOCK_SIZE_def)

lemma local_value_zero: "local_value right 0 v = v"
  by (simp add: local_value_def)

lemma scatter_ctx:
  "(if \<not> sc_ctx ctx then ctx\<lparr>sc_ctx := True, x_all := ys\<rparr> else ctx)\<lparr>x_all := xg\<rparr> =
     ctx\<lparr>sc_ctx := True, x_all := xg\<rparr>"
  by (cases ctx) simp

lemma MatMult_GPU_closed:
  assumes "own_start b \<le> own_end b" "length (array b) = nat (own_end b - own_start b)"
  shows "MatMult_GPU term_real ctx x x_gathered b =
     (if MatMult_in_bounds ctx x x_gathered b
      then Inr (ctx\<lparr>sc_ctx := True, x_all := x_gathered\<rparr>,
                b\<lparr>array := MatMult_rows term_real ctx x x_gathered b\<rparr>)
      else Inl OutOfBounds)"
proof -
  let ?n = "length (array b)"
  let ?ctx1 = "(if \<not> sc_ctx ctx then ctx\<lparr>sc_ctx := True, x_all := replicate (length x_gathered) 0\<rparr> else ctx)"
  have f: "masks ?ctx1 = masks ctx" "mask_offsets ?ctx1 = mask_offsets ctx" "signs ?ctx1 = signs ctx"
    "real_coeffs ?ctx1 = real_coeffs ctx" "nmasks_local ?ctx1 = nmasks_local ctx"
    "nmasks ?ctx1 = nmasks ctx" "left_subspace_data ?ctx1 = left_subspace_data ctx"
    "right_subspace_data ?ctx1 = right_subspace_data ctx"
    by simp_all
  have len: "length (replicate ?n (0::complex)) = nat (own_end b - own_start b)"
    using assms(2) by simp
  note loc = launch_local_closed [OF GPU_dims assms(1) len,
      of term_real "masks ctx" "mask_offsets ctx" "signs ctx" "real_coeffs ctx" "nmasks_local ctx"
         "left_subspace_data ctx" "right_subspace_data ctx" "array x" "own_start x"]
  show ?thesis
  proof (cases "list_all (\<lambda>i. row_in_bounds (masks ctx) (nmasks_local ctx) (left_subspace_data ctx)
                      (right_subspace_data ctx) (array x) (own_start b) (own_start x) (int i))
        [0 ..< ?n]")
    case False
    then show ?thesis
      using loc by (simp add: MatMult_GPU_def Let_def f MatMult_in_bounds_def del: if_not_P)
  next
    case True
    let ?b1 = "map (\<lambda>i. row_total term_real (masks ctx) (mask_offsets ctx) (signs ctx) (real_coeffs ctx)
                 (nmasks_local ctx) (left_subspace_data ctx) (right_subspace_data ctx)
                 (array x) (own_start b) (own_start x) (int i)) [0 ..< ?n]"
    have l1: "launch GPU_BLOCK_NUM GPU_BLOCK_SIZE
                (device_MatMult_local term_real (masks ctx) (mask_offsets ctx) (signs ctx)
                   (real_coeffs ctx) (nmasks_local ctx) (left_subspace_data ctx)
                   (right_subspace_data ctx) (array x) (own_start b) (own_end b) (own_start x))
                (replicate ?n 0) = Inr ?b1"
      using loc True by (simp add: local_value_zero cong: map_cong)
    have len1: "length ?b1 = nat (own_end b - own_start b)" using assms(2) by simp
    note glo = launch_global_closed [OF GPU_dims assms(1) len1,
      of term_real "drop (nat (nmasks_local ctx)) (masks ctx)"
         "drop (nat (nmasks_local ctx)) (mask_offsets ctx)" "signs ctx" "real_coeffs ctx"
         "nmasks ctx - nmasks_local ctx" "left_subspace_data ctx" "right_subspace_data ctx" x_gathered]
    show ?thesis
    proof (cases "nmasks ctx - nmasks_local ctx > 0")
      case pos: True
      show ?thesis
        using l1 glo True pos
        by (simp add: MatMult_GPU_def Let_def f MatMult_in_bounds_def MatMult_rows_def scatter_ctx
            cong: map_cong del: if_not_P)
    next
      case npos: False
      then have z: "nat (nmasks ctx - nmasks_local ctx) = 0" by simp
      show ?thesis
        using l1 True npos
        by (simp add: MatMult_GPU_def Let_def f MatMult_in_bounds_def MatMult_rows_def scatter_ctx
            row_in_bounds_def row_total_def z list_all_iff del: if_not_P)
    qed
  qed
qed

section \<open>The reduction of the norm kernel\<close>

lemma length_reduce_step: "length (reduce_step i tm) = length tm"
  by (simp add: reduce_step_def)

lemma nth_reduce_step:
  "t < length tm \<Longrightarrow> reduce_step i tm ! t =
     (if t mod (2 * i) = 0 then max (tm ! t) (tm ! (t + i)) else tm ! t)"
  by (simp add: reduce_step_def Let_def max_def)

lemma aligned_room:
  fixes t :: nat
  assumes "t < 2 ^ k" "j < k" "t mod 2 ^ Suc j = 0"
  shows "t + 2 ^ Suc j \<le> 2 ^ k"
proof -
  have "2 ^ Suc j dvd t"
    using assms(3) by (simp add: mod_eq_0_iff_dvd)
  then obtain a where a: "t = 2 ^ Suc j * a"
    by (rule dvdE)
  have "Suc j + (k - Suc j) = k" using assms(2) by simp
  then have k: "(2::nat) ^ k = 2 ^ Suc j * 2 ^ (k - Suc j)"
    by (metis power_add)
  have "a < 2 ^ (k - Suc j)"
    using assms(1) unfolding a k by simp
  then have "Suc a \<le> 2 ^ (k - Suc j)" by simp
  then have "2 ^ Suc j * Suc a \<le> (2::nat) ^ Suc j * 2 ^ (k - Suc j)"
    by (rule mult_le_mono2)
  then show ?thesis unfolding a k [symmetric] by simp
qed

lemma reduce_loop_pow2:
  assumes "length tm = 2 ^ k" "j \<le> k"
    and "\<forall>t<2 ^ k. t mod 2 ^ j = 0 \<longrightarrow> tm ! t = Max (orig ` {t ..< t + 2 ^ j})"
  shows "reduce_loop (2 ^ k) (2 ^ j) tm ! 0 = Max (orig ` {0 ..< 2 ^ k})"
  using assms
proof (induction "k - j" arbitrary: j tm)
  case 0
  then have "j = k" by simp
  then have "reduce_loop (2 ^ k) (2 ^ j) tm = tm"
    by (subst reduce_loop.simps) simp
  moreover have "tm ! 0 = Max (orig ` {0 ..< 0 + 2 ^ j})"
    using "0.prems"(3) by simp
  ultimately show ?case using \<open>j = k\<close> by simp
next
  case (Suc d)
  then have jk: "j < k" by simp
  let ?tm' = "reduce_step (2 ^ j) tm"
  have unfold: "reduce_loop (2 ^ k) (2 ^ j) tm = reduce_loop (2 ^ k) (2 ^ Suc j) ?tm'"
    using jk by (subst reduce_loop.simps) simp
  have inv: "\<forall>t<2 ^ k. t mod 2 ^ Suc j = 0 \<longrightarrow> ?tm' ! t = Max (orig ` {t ..< t + 2 ^ Suc j})"
  proof (intro allI impI)
    fix t :: nat assume t: "t < 2 ^ k" and al: "t mod 2 ^ Suc j = 0"
    have room: "t + 2 ^ Suc j \<le> 2 ^ k" using t jk al by (rule aligned_room)
    have alj: "t mod 2 ^ j = 0"
      using al by (metis dvd_eq_mod_eq_0 dvd_power_le dvd_refl dvd_trans le_add2 plus_1_eq_Suc)
    have al2: "(t + 2 ^ j) mod 2 ^ j = 0" using alj by simp
    have "(0::nat) < 2 ^ j" by simp
    then have lt2: "t + 2 ^ j < 2 ^ k" using room by (simp only: power_Suc)
    have a: "tm ! t = Max (orig ` {t ..< t + 2 ^ j})"
      using Suc.prems(3) t alj by simp
    have b: "tm ! (t + 2 ^ j) = Max (orig ` {t + 2 ^ j ..< t + 2 ^ j + 2 ^ j})"
      using Suc.prems(3) lt2 al2 by simp
    have "?tm' ! t = max (tm ! t) (tm ! (t + 2 ^ j))"
      using t al Suc.prems(1) by (simp add: nth_reduce_step)
    also have "\<dots> = Max (orig ` {t ..< t + 2 ^ j} \<union> orig ` {t + 2 ^ j ..< t + 2 ^ j + 2 ^ j})"
      unfolding a b by (subst Max_Un) simp_all
    also have "orig ` {t ..< t + 2 ^ j} \<union> orig ` {t + 2 ^ j ..< t + 2 ^ j + 2 ^ j} =
        orig ` {t ..< t + 2 ^ Suc j}"
    proof -
      have "t + 2 ^ j + 2 ^ j = t + 2 ^ Suc j" by simp
      then show ?thesis
        by (simp only: image_Un [symmetric]) (simp add: ivl_disj_un)
    qed
    finally show "?tm' ! t = Max (orig ` {t ..< t + 2 ^ Suc j})" .
  qed
  have "reduce_loop (2 ^ k) (2 ^ Suc j) ?tm' ! 0 = Max (orig ` {0 ..< 2 ^ k})"
  proof (rule Suc.hyps(1))
    show "d = k - Suc j" using Suc.hyps(2) by simp
    show "length ?tm' = 2 ^ k" using Suc.prems(1) by (simp add: length_reduce_step)
    show "Suc j \<le> k" using jk by simp
    show "\<forall>t<2 ^ k. t mod 2 ^ Suc j = 0 \<longrightarrow> ?tm' ! t = Max (orig ` {t ..< t + 2 ^ Suc j})"
      by (rule inv)
  qed
  then show ?case using unfold by simp
qed

lemma reduce_loop_Max:
  assumes "length tm = 2 ^ k"
  shows "reduce_loop (2 ^ k) 1 tm ! 0 = Max (set tm)"
proof -
  have "reduce_loop (2 ^ k) (2 ^ 0) tm ! 0 = Max ((\<lambda>t. tm ! t) ` {0 ..< 2 ^ k})"
    by (rule reduce_loop_pow2) (simp_all add: assms)
  moreover have "(\<lambda>t. tm ! t) ` {0 ..< 2 ^ k} = set tm"
    using assms by (metis atLeast_upt list.set_map map_nth set_upt)
  ultimately show ?thesis by simp
qed

lemma foldl_max:
  "foldl (\<lambda>tm r. let s = f r in if s > tm then s else tm) (a::real) rows =
     Max (insert a (f ` set rows))"
proof (induction rows arbitrary: a)
  case Nil
  show ?case by simp
next
  case (Cons r rows)
  have step: "(let s = f r in if s > a then s else a) = max a (f r)"
    by (simp add: Let_def max_def)
  have "foldl (\<lambda>tm r. let s = f r in if s > tm then s else tm) a (r # rows) =
      Max (insert (max a (f r)) (f ` set rows))"
    using Cons.IH [of "max a (f r)"] by (simp only: foldl_Cons step)
  also have "\<dots> = Max (insert a (f ` set (r # rows)))"
    by (cases "set rows = {}") (simp_all add: max.assoc)
  finally show ?case .
qed


lemma kernel_rows_mem:
  "x \<in> set (kernel_rows g bd sz) \<longleftrightarrow>
     (\<exists>b<g. \<exists>t<bd. x \<in> set (thread_rows (int bd) (vec_stop_index sz g b)
                                 (vec_start_index sz g b + int t)))"
  by (simp add: kernel_rows_def Bex_def)

lemma foldl_host_max:
  "foldl (\<lambda>n h. if h > n then h else n) (a::real) hs = Max (insert a (set hs))"
  using foldl_max [of "\<lambda>h. h" a hs] by (simp add: Let_def)

lemma thread_max_Max:
  "thread_max term_real msks offsets sgns rcoeffs n_masks left sz g bd b t =
     Max (insert 0 (row_sum term_real msks offsets sgns rcoeffs n_masks left `
            set (thread_rows (int bd) (vec_stop_index sz g b) (vec_start_index sz g b + int t))))"
  by (simp only: thread_max_def foldl_max)

lemma device_MatNorm_Max:
  "device_MatNorm term_real sz msks offsets sgns rcoeffs n_masks left g (2 ^ k) b =
     Max (thread_max term_real msks offsets sgns rcoeffs n_masks left sz g (2 ^ k) b ` {0 ..< 2 ^ k})"
proof -
  have "length (map (thread_max term_real msks offsets sgns rcoeffs n_masks left sz g (2 ^ k) b)
                  [0 ..< 2 ^ k]) = 2 ^ k"
    by simp
  then have "reduce_loop (2 ^ k) 1
               (map (thread_max term_real msks offsets sgns rcoeffs n_masks left sz g (2 ^ k) b)
                  [0 ..< 2 ^ k]) ! 0 =
             Max (set (map (thread_max term_real msks offsets sgns rcoeffs n_masks left sz g (2 ^ k) b)
                  [0 ..< 2 ^ k]))"
    by (rule reduce_loop_Max)
  then show ?thesis
    by (simp add: device_MatNorm_def Let_def)
qed

lemma norm_reduction:
  assumes g: "0 < g" and sz: "0 \<le> sz"
  shows "foldl (\<lambda>n h. if h > n then h else n) 0
           (map (device_MatNorm term_real sz msks offsets sgns rcoeffs n_masks left g (2 ^ k)) [0 ..< g]) =
         Max (insert 0 (row_sum term_real msks offsets sgns rcoeffs n_masks left ` {0 ..< sz}))"
proof -
  let ?f = "row_sum term_real msks offsets sgns rcoeffs n_masks left"
  let ?R = "\<lambda>b t. set (thread_rows (int (2 ^ k)) (vec_stop_index sz g b) (vec_start_index sz g b + int t))"
  let ?T = "\<lambda>b t. Max (insert 0 (?f ` ?R b t))"
  let ?h = "\<lambda>b. Max (?T b ` {0 ..< 2 ^ k})"
  let ?H = "insert 0 (?h ` {0 ..< g})"
  let ?A = "insert 0 (?f ` {0 ..< sz})"
  have bd: "0 < (2::nat) ^ k" by simp
  have cover: "x \<in> {0 ..< sz} \<longleftrightarrow> (\<exists>b<g. \<exists>t<2 ^ k. x \<in> ?R b t)" for x
    using kernel_rows_set [OF g bd sz] kernel_rows_mem [of x g "2 ^ k" sz] by simp
  have hs: "map (device_MatNorm term_real sz msks offsets sgns rcoeffs n_masks left g (2 ^ k)) [0 ..< g] =
      map ?h [0 ..< g]"
    by (simp add: device_MatNorm_Max thread_max_Max)
  have lhs: "foldl (\<lambda>n h. if h > n then h else n) 0
           (map (device_MatNorm term_real sz msks offsets sgns rcoeffs n_masks left g (2 ^ k)) [0 ..< g]) =
      Max ?H"
    by (simp only: hs foldl_host_max) simp
  have finA: "finite ?A" and finH: "finite ?H" by simp_all
  have T_ge: "?f r \<le> ?T b t" if "r \<in> ?R b t" for r b t
    using that by (intro Max_ge) simp_all
  have T_in: "?T b t \<in> insert 0 (?f ` ?R b t)" for b t
    by (intro Max_in) simp_all
  have h_ge: "?T b t \<le> ?h b" if "t < 2 ^ k" for b t
    using that by (intro Max_ge) simp_all
  have h_in: "?h b \<in> ?T b ` {0 ..< 2 ^ k}" for b
    using bd by (intro Max_in) simp_all
  have H_ge: "?h b \<le> Max ?H" if "b < g" for b
    using that by (intro Max_ge) simp_all
  have H_in: "Max ?H \<in> ?H"
    by (intro Max_in) simp_all
  have "Max ?A = Max ?H"
  proof (rule Max_eqI)
    show "finite ?A" by (rule finA)
  next
    fix y assume "y \<in> ?A"
    then consider "y = 0" | r where "r \<in> {0 ..< sz}" "y = ?f r" by auto
    then show "y \<le> Max ?H"
    proof cases
      case 1
      then show ?thesis by (intro Max_ge) simp_all
    next
      case 2
      then obtain b t where bt: "b < g" "t < 2 ^ k" "r \<in> ?R b t"
        using cover by blast
      have "?f r \<le> ?T b t" using bt(3) by (rule T_ge)
      also have "\<dots> \<le> ?h b" using bt(2) by (rule h_ge)
      also have "\<dots> \<le> Max ?H" using bt(1) by (rule H_ge)
      finally show ?thesis using 2(2) by simp
    qed
  next
    show "Max ?H \<in> ?A"
    proof (cases "Max ?H = 0")
      case True
      then show ?thesis by simp
    next
      case False
      then have "Max ?H \<in> ?h ` {0 ..< g}" using H_in by blast
      then obtain b where b: "b \<in> {0 ..< g}" "Max ?H = ?h b" by blast
      obtain t where t: "t \<in> {0 ..< 2 ^ k}" "?h b = ?T b t" using h_in [of b] by blast
      have "?T b t \<noteq> 0" using False b(2) t(2) by simp
      then have "?T b t \<in> ?f ` ?R b t" using T_in [of b t] by blast
      then obtain r where r: "r \<in> ?R b t" "?T b t = ?f r" by blast
      have "b < g" "t < 2 ^ k" using b(1) t(1) by simp_all
      then have "r \<in> {0 ..< sz}" using cover r(1) by blast
      then have "?f r \<in> ?A" by blast
      then show ?thesis using b(2) t(2) r(2) by simp
    qed
  qed
  then show ?thesis using lhs by simp
qed

section \<open>The partition of the masks\<close>

lemma max_msc_div:
  assumes "0 \<le> l" "1 \<le> p"
  shows "max_msc l p = 2 ^ nat l div p"
proof -
  have p: "0 < real_of_int p" using assms(2) by simp
  have "ln (real_of_int p) / ln 2 = log 2 (real_of_int p)"
    by (simp add: log_def)
  then have "2 powr (real_of_int l - ln (real_of_int p) / ln 2) =
      2 powr real_of_int l / 2 powr log 2 (real_of_int p)"
    by (simp add: powr_diff)
  also have "2 powr log 2 (real_of_int p) = real_of_int p"
    using p by simp
  also have "2 powr real_of_int l = 2 ^ nat l"
  proof -
    have "real_of_int l = real (nat l)" using assms(1) by simp
    then show ?thesis by (metis powr_realpow zero_less_numeral)
  qed
  finally have "2 powr (real_of_int l - ln (real_of_int p) / ln 2) =
      real_of_int (2 ^ nat l) / real_of_int p"
    by simp
  then show ?thesis
    by (simp only: max_msc_def floor_divide_of_int_eq)
qed

lemma count_local_masks_takeWhile:
  assumes "0 \<le> k" "nat n \<le> length msks"
  shows "count_local_masks msks n mx k =
     (if k < n then k + int (length (takeWhile (\<lambda>m. m < mx) (drop (nat k) (take (nat n) msks))))
      else k)"
  using assms
proof (induction msks n mx k rule: count_local_masks.induct)
  case (1 msks n mx k)
  show ?case
  proof (cases "k < n")
    case False
    then show ?thesis by (subst count_local_masks.simps) simp
  next
    case True
    have len: "nat k < length (take (nat n) msks)"
      using True "1.prems" by simp
    have dr: "drop (nat k) (take (nat n) msks) =
        msks ! nat k # drop (Suc (nat k)) (take (nat n) msks)"
      using len by (metis Cons_nth_drop_Suc nth_take length_take min.absorb2 "1.prems"(2))
    show ?thesis
    proof (cases "msks ! nat k \<ge> mx")
      case stop: True
      then show ?thesis using True dr by (subst count_local_masks.simps) simp
    next
      case go: False
      have sk: "nat (k + 1) = Suc (nat k)" using "1.prems"(1) by simp
      have ih: "count_local_masks msks n mx (k + 1) =
          (if k + 1 < n
           then k + 1 + int (length (takeWhile (\<lambda>m. m < mx) (drop (nat (k + 1)) (take (nat n) msks))))
           else k + 1)"
        using "1.IH" True go "1.prems" by simp
      have last: "drop (Suc (nat k)) (take (nat n) msks) = []" if "\<not> k + 1 < n"
        using that True "1.prems" by simp
      show ?thesis
        using True go dr ih last
        by (subst count_local_masks.simps) (auto simp: sk)
    qed
  qed
qed

lemma BuildContext_nmasks_local:
  assumes "0 \<le> msc_nmasks msc" "nat (msc_nmasks msc) \<le> length (msc_masks msc)"
  shows "nmasks_local (BuildContext_CUDA msc left right mpi_size) =
     int (length (takeWhile (\<lambda>m. m < max_msc (L left) mpi_size)
                    (take (nat (msc_nmasks msc)) (msc_masks msc))))"
proof -
  have "count_local_masks (msc_masks msc) (msc_nmasks msc) (max_msc (L left) mpi_size) 0 =
     int (length (takeWhile (\<lambda>m. m < max_msc (L left) mpi_size)
                    (take (nat (msc_nmasks msc)) (msc_masks msc))))"
    using assms by (subst count_local_masks_takeWhile) auto
  then show ?thesis by (simp add: BuildContext_CUDA_def Let_def)
qed

lemma subtotal_drop:
  assumes "k \<le> length msks" "k \<le> length offsets"
  shows "subtotal term_real (drop k msks) (drop k offsets) sgns rcoeffs ket j =
         subtotal term_real msks offsets sgns rcoeffs ket (k + j)"
  using assms by (simp add: subtotal_def add.assoc)

lemma col_of_drop:
  "k \<le> length msks \<Longrightarrow> col_of right (drop k msks) ket j = col_of right msks ket (k + j)"
  by (simp add: col_of_def)

lemma contribution_drop:
  assumes "k \<le> length msks" "k \<le> length offsets"
  shows "contribution term_real (drop k msks) (drop k offsets) sgns rcoeffs right xarray col_start ket j =
         contribution term_real msks offsets sgns rcoeffs right xarray col_start ket (k + j)"
  using assms by (simp add: contribution_def coefficient_def subtotal_drop col_of_drop)

lemma in_bounds_drop:
  "k \<le> length msks \<Longrightarrow>
     in_bounds right (drop k msks) xarray col_start ket j = in_bounds right msks xarray col_start ket (k + j)"
  by (simp add: in_bounds_def col_of_drop)

lemma upt_shift: "map (\<lambda>j. f (k + j)) [0 ..< m] = map f [k ..< k + m]"
proof -
  have "[k ..< k + m] = map (\<lambda>j. j + k) [0 ..< m]"
    by (simp add: map_add_upt add.commute)
  then show ?thesis by (simp add: comp_def add.commute)
qed

lemma row_total_drop:
  assumes "0 \<le> nl" "nl \<le> n" "nat nl \<le> length msks" "nat nl \<le> length offsets"
  shows "row_total term_real (drop (nat nl) msks) (drop (nat nl) offsets) sgns rcoeffs (n - nl)
           left right xarray row_start col_start row_idx =
         sum_list (map (contribution term_real msks offsets sgns rcoeffs right xarray col_start
                          (I2S left (row_idx + row_start))) [nat nl ..< nat n])"
proof -
  let ?ket = "I2S left (row_idx + row_start)"
  have sum: "nat nl + nat (n - nl) = nat n" using assms(1,2) by simp
  have "contribution term_real (drop (nat nl) msks) (drop (nat nl) offsets) sgns rcoeffs right
          xarray col_start ?ket =
        (\<lambda>j. contribution term_real msks offsets sgns rcoeffs right xarray col_start ?ket (nat nl + j))"
    using assms(3,4) by (intro ext) (rule contribution_drop)
  then have "row_total term_real (drop (nat nl) msks) (drop (nat nl) offsets) sgns rcoeffs (n - nl)
           left right xarray row_start col_start row_idx =
      sum_list (map (\<lambda>j. contribution term_real msks offsets sgns rcoeffs right xarray col_start
                           ?ket (nat nl + j)) [0 ..< nat (n - nl)])"
    by (simp only: row_total_def)
  also have "\<dots> = sum_list (map (contribution term_real msks offsets sgns rcoeffs right xarray
                                   col_start ?ket) [nat nl ..< nat nl + nat (n - nl)])"
    by (simp only: upt_shift)
  finally show ?thesis by (simp only: sum)
qed

lemma row_in_bounds_drop:
  assumes "0 \<le> nl" "nl \<le> n" "nat nl \<le> length msks"
  shows "row_in_bounds (drop (nat nl) msks) (n - nl) left right xarray row_start col_start row_idx =
         list_all (in_bounds right msks xarray col_start (I2S left (row_idx + row_start)))
           [nat nl ..< nat n]"
proof -
  let ?ket = "I2S left (row_idx + row_start)"
  have sum: "nat nl + nat (n - nl) = nat n" using assms(1,2) by simp
  have "in_bounds right (drop (nat nl) msks) xarray col_start ?ket =
        (\<lambda>j. in_bounds right msks xarray col_start ?ket (nat nl + j))"
    using assms(3) by (intro ext) (rule in_bounds_drop)
  then have "row_in_bounds (drop (nat nl) msks) (n - nl) left right xarray row_start col_start row_idx =
      list_all (\<lambda>j. in_bounds right msks xarray col_start ?ket (nat nl + j)) [0 ..< nat (n - nl)]"
    by (simp only: row_in_bounds_def)
  also have "\<dots> = list_all (in_bounds right msks xarray col_start ?ket)
                     (map (\<lambda>j. nat nl + j) [0 ..< nat (n - nl)])"
    by (simp only: list.pred_map comp_def)
  also have "map (\<lambda>j. nat nl + j) [0 ..< nat (n - nl)] = [nat nl ..< nat nl + nat (n - nl)]"
    using upt_shift [of "\<lambda>j. j" "nat nl" "nat (n - nl)"] by simp
  finally show ?thesis by (simp only: sum)
qed

section \<open>What a multiply leaves unchanged\<close>






section \<open>The norm in closed form\<close>

lemma GPU_BLOCK_SIZE_pow2: "GPU_BLOCK_SIZE = 2 ^ 7"
  by (simp add: GPU_BLOCK_SIZE_def)

lemma row_sum_image:
  assumes "0 \<le> M"
  shows "row_sum term_real (masks ctx) (mask_offsets ctx) (signs ctx) (real_coeffs ctx) (nmasks ctx)
           (left_subspace_data ctx) ` {0 ..< M} = row_abs_sum term_real ctx ` {0 ..< nat M}"
proof -
  have f: "row_sum term_real (masks ctx) (mask_offsets ctx) (signs ctx) (real_coeffs ctx) (nmasks ctx)
           (left_subspace_data ctx) (int i) = row_abs_sum term_real ctx i" for i
    by (simp add: row_sum_subtotal row_abs_sum_def)
  have "{0 ..< M} = int ` {0 ..< nat M}"
  proof (rule set_eqI)
    fix r show "r \<in> {0 ..< M} \<longleftrightarrow> r \<in> int ` {0 ..< nat M}"
    proof
      assume "r \<in> {0 ..< M}"
      then have "r = int (nat r)" "nat r \<in> {0 ..< nat M}" by auto
      then show "r \<in> int ` {0 ..< nat M}" by (rule image_eqI)
    next
      assume "r \<in> int ` {0 ..< nat M}"
      then show "r \<in> {0 ..< M}" using assms by auto
    qed
  qed
  then show ?thesis by (simp add: image_image f)
qed

lemma MatNorm_GPU_first:
  assumes "nrm ctx = -1" "0 \<le> M"
  shows "MatNorm_GPU term_real ctx M NORM_INFINITY =
           (Inr (norm_infinity term_real ctx M), ctx\<lparr>nrm := norm_infinity term_real ctx M\<rparr>)"
proof -
  have "foldl (\<lambda>n h. if h > n then h else n) 0
           (map (device_MatNorm term_real M (masks ctx) (mask_offsets ctx) (signs ctx)
                   (real_coeffs ctx) (nmasks ctx) (left_subspace_data ctx) GPU_BLOCK_NUM GPU_BLOCK_SIZE)
              [0 ..< GPU_BLOCK_NUM]) =
        norm_infinity term_real ctx M"
    unfolding GPU_BLOCK_SIZE_pow2
    using GPU_dims(1) assms(2)
    by (subst norm_reduction) (simp_all add: row_sum_image norm_infinity_def)
  then show ?thesis
    using assms(1) by (simp add: MatNorm_GPU_def Let_def)
qed





section \<open>The two phases of a multiply\<close>


lemma MatMult_rows_phases:
  assumes "ctx_wf ctx"
  shows "MatMult_rows term_real ctx x x_gathered b =
     map (\<lambda>i. sum_list (map (contribution term_real (masks ctx) (mask_offsets ctx) (signs ctx)
                                (real_coeffs ctx) (right_subspace_data ctx) (array x) (own_start x)
                                (I2S (left_subspace_data ctx) (int i + own_start b)))
                          [0 ..< nat (nmasks_local ctx)])
             + sum_list (map (contribution term_real (masks ctx) (mask_offsets ctx) (signs ctx)
                                (real_coeffs ctx) (right_subspace_data ctx) x_gathered 0
                                (I2S (left_subspace_data ctx) (int i + own_start b)))
                          [nat (nmasks_local ctx) ..< nat (nmasks ctx)]))
       [0 ..< length (array b)]"
proof -
  have w: "0 \<le> nmasks_local ctx" "nmasks_local ctx \<le> nmasks ctx"
    "nat (nmasks_local ctx) \<le> length (masks ctx)" "nat (nmasks_local ctx) \<le> length (mask_offsets ctx)"
    using assms by (auto simp: ctx_wf_def)
  show ?thesis
    by (simp only: MatMult_rows_def row_total_drop [OF w]) (simp add: row_total_def)
qed

lemma MatMult_in_bounds_phases:
  assumes "ctx_wf ctx"
  shows "MatMult_in_bounds ctx x x_gathered b =
     (list_all (\<lambda>i. list_all (in_bounds (right_subspace_data ctx) (masks ctx) (array x) (own_start x)
                                (I2S (left_subspace_data ctx) (int i + own_start b)))
                       [0 ..< nat (nmasks_local ctx)]) [0 ..< length (array b)]
      \<and> list_all (\<lambda>i. list_all (in_bounds (right_subspace_data ctx) (masks ctx) x_gathered 0
                                (I2S (left_subspace_data ctx) (int i + own_start b)))
                       [nat (nmasks_local ctx) ..< nat (nmasks ctx)]) [0 ..< length (array b)])"
proof -
  have w: "0 \<le> nmasks_local ctx" "nmasks_local ctx \<le> nmasks ctx"
    "nat (nmasks_local ctx) \<le> length (masks ctx)"
    using assms by (auto simp: ctx_wf_def)
  show ?thesis
    by (simp only: MatMult_in_bounds_def row_in_bounds_drop [OF w]) (simp add: row_in_bounds_def)
qed


lemma small_has_no_high_bit:
  fixes m :: int
  assumes "0 \<le> m" "m < 2 ^ n" "n \<le> j"
  shows "\<not> bit m j"
proof -
  have "(2::int) ^ n \<le> 2 ^ j" using assms(3) by simp
  then have "m < 2 ^ j" using assms(2) by linarith
  then have "m div 2 ^ j = 0" using assms(1) by simp
  then show ?thesis by (simp add: bit_iff_odd)
qed

lemma threshold_power_of_two:
  assumes "k \<le> l"
  shows "(2::int) ^ l div 2 ^ k = 2 ^ (l - k)"
  using assms by (simp add: power_diff)

lemma contribution_slice:
  assumes "in_bounds right msks (take n (drop (nat cs) xs)) cs ket k" "0 \<le> cs"
  shows "contribution term_real msks offsets sgns rcoeffs right (take n (drop (nat cs) xs)) cs ket k =
         contribution term_real msks offsets sgns rcoeffs right xs 0 ket k"
proof (cases "col_of right msks ket k = -1")
  case True
  then show ?thesis by (simp add: contribution_def)
next
  case False
  let ?c = "col_of right msks ket k"
  have r: "cs \<le> ?c" "?c < cs + int (length (take n (drop (nat cs) xs)))"
    using assms(1) False by (simp_all add: in_bounds_def Let_def)
  then have lt: "nat (?c - cs) < n" "nat (?c - cs) < length xs - nat cs"
    by simp_all
  then have le: "nat cs \<le> length xs" by simp
  have idx: "nat cs + nat (?c - cs) = nat ?c"
    using r(1) assms(2) by simp
  have "take n (drop (nat cs) xs) ! nat (?c - cs) = xs ! nat ?c"
    using lt le idx by simp
  then show ?thesis using False by (simp add: contribution_def)
qed

text \<open>
  When every read of a multiply is defined and the process holds its part of the gathered
  input, the output does not depend on where the masks are split: every row is the sum
  over all masks of the contributions read from the gathered input.
\<close>

lemma MatMult_rows_independent_of_partition:
  assumes wf: "ctx_wf ctx" and ok: "MatMult_in_bounds ctx x x_gathered b"
    and x: "array x = take n (drop (nat (own_start x)) x_gathered)" "0 \<le> own_start x"
  shows "MatMult_rows term_real ctx x x_gathered b =
     map (\<lambda>i. sum_list (map (contribution term_real (masks ctx) (mask_offsets ctx) (signs ctx)
                                (real_coeffs ctx) (right_subspace_data ctx) x_gathered 0
                                (I2S (left_subspace_data ctx) (int i + own_start b)))
                          [0 ..< nat (nmasks ctx)]))
       [0 ..< length (array b)]"
proof -
  have w: "nat (nmasks_local ctx) \<le> nat (nmasks ctx)"
    using wf by (auto simp: ctx_wf_def)
  have split: "[0 ..< nat (nmasks ctx)] =
      [0 ..< nat (nmasks_local ctx)] @ [nat (nmasks_local ctx) ..< nat (nmasks ctx)]"
    using w by (metis le_add_diff_inverse upt_add_eq_append zero_le)
  have loc: "list_all (in_bounds (right_subspace_data ctx) (masks ctx) (array x) (own_start x)
                         (I2S (left_subspace_data ctx) (int i + own_start b)))
               [0 ..< nat (nmasks_local ctx)]" if "i < length (array b)" for i
    using ok that by (simp add: MatMult_in_bounds_phases [OF wf] list_all_iff)
  have row: "sum_list (map (contribution term_real (masks ctx) (mask_offsets ctx) (signs ctx)
                                (real_coeffs ctx) (right_subspace_data ctx) (array x) (own_start x)
                                (I2S (left_subspace_data ctx) (int i + own_start b)))
                          [0 ..< nat (nmasks_local ctx)]) =
        sum_list (map (contribution term_real (masks ctx) (mask_offsets ctx) (signs ctx)
                                (real_coeffs ctx) (right_subspace_data ctx) x_gathered 0
                                (I2S (left_subspace_data ctx) (int i + own_start b)))
                          [0 ..< nat (nmasks_local ctx)])"
    if "i < length (array b)" for i
  proof (rule arg_cong [where f = sum_list], rule map_cong [OF refl])
    fix k assume "k \<in> set [0 ..< nat (nmasks_local ctx)]"
    then have "in_bounds (right_subspace_data ctx) (masks ctx)
                 (take n (drop (nat (own_start x)) x_gathered)) (own_start x)
                 (I2S (left_subspace_data ctx) (int i + own_start b)) k"
      using loc [OF that] by (simp add: list_all_iff x(1))
    then show "contribution term_real (masks ctx) (mask_offsets ctx) (signs ctx)
                 (real_coeffs ctx) (right_subspace_data ctx) (array x) (own_start x)
                 (I2S (left_subspace_data ctx) (int i + own_start b)) k =
               contribution term_real (masks ctx) (mask_offsets ctx) (signs ctx)
                 (real_coeffs ctx) (right_subspace_data ctx) x_gathered 0
                 (I2S (left_subspace_data ctx) (int i + own_start b)) k"
      unfolding x(1) using x(2) by (rule contribution_slice)
  qed
  have whole: "sum_list (map f [0 ..< nat (nmasks_local ctx)]) +
      sum_list (map f [nat (nmasks_local ctx) ..< nat (nmasks ctx)]) =
      sum_list (map f [0 ..< nat (nmasks ctx)])" for f :: "nat \<Rightarrow> complex"
  proof -
    have "sum_list (map f [0 ..< nat (nmasks ctx)]) =
        sum_list (map f ([0 ..< nat (nmasks_local ctx)] @
                         [nat (nmasks_local ctx) ..< nat (nmasks ctx)]))"
      by (simp only: split [symmetric])
    then show ?thesis by simp
  qed
  show ?thesis
    unfolding MatMult_rows_phases [OF wf]
  proof (rule map_cong [OF refl])
    fix i assume "i \<in> set [0 ..< length (array b)]"
    then have "i < length (array b)" by simp
    then show "sum_list (map (contribution term_real (masks ctx) (mask_offsets ctx) (signs ctx)
                                (real_coeffs ctx) (right_subspace_data ctx) (array x) (own_start x)
                                (I2S (left_subspace_data ctx) (int i + own_start b)))
                          [0 ..< nat (nmasks_local ctx)]) +
        sum_list (map (contribution term_real (masks ctx) (mask_offsets ctx) (signs ctx)
                                (real_coeffs ctx) (right_subspace_data ctx) x_gathered 0
                                (I2S (left_subspace_data ctx) (int i + own_start b)))
                          [nat (nmasks_local ctx) ..< nat (nmasks ctx)]) =
        sum_list (map (contribution term_real (masks ctx) (mask_offsets ctx) (signs ctx)
                                (real_coeffs ctx) (right_subspace_data ctx) x_gathered 0
                                (I2S (left_subspace_data ctx) (int i + own_start b)))
                          [0 ..< nat (nmasks ctx)])"
      by (simp only: row whole)
  qed
qed

section \<open>Lookups that miss\<close>

lemma in_bounds_miss:
  "fst (S2I right (ket XOR msks ! mask_idx)) = -1 \<Longrightarrow> in_bounds right msks xarray col_start ket mask_idx"
  by (simp add: in_bounds_def col_of_def)

lemma contribution_miss:
  "fst (S2I right (ket XOR msks ! mask_idx)) = -1 \<Longrightarrow>
     contribution term_real msks offsets sgns rcoeffs right xarray col_start ket mask_idx = 0"
  by (simp add: contribution_def col_of_def)

text \<open>
  C8. When the right subspace returns the index -1 for the flipped state of a mask, the
  mask loop of the multiply kernels goes on with the next mask and the value of the row as
  it was: the mask raises no error, and taking it out of the masks of the row changes
  neither the value of the row nor whether the other masks can be read.
\<close>

theorem lookup_miss_is_skipped:
  assumes "fst (S2I right (ket XOR msks ! mask_idx)) = -1"
  shows "mask_loop term_real msks offsets sgns rcoeffs right xarray col_start ket (mask_idx # rest) val =
           mask_loop term_real msks offsets sgns rcoeffs right xarray col_start ket rest val
       \<and> mask_loop term_real msks offsets sgns rcoeffs right xarray col_start ket
             (before @ mask_idx # rest) val =
           mask_loop term_real msks offsets sgns rcoeffs right xarray col_start ket (before @ rest) val
       \<and> mask_loop term_real msks offsets sgns rcoeffs right xarray col_start ket [mask_idx] val = Inr val"
  using in_bounds_miss [OF assms, of xarray col_start]
    contribution_miss [OF assms, of term_real offsets sgns rcoeffs xarray col_start]
  by (simp add: mask_loop_closed)

theorem lookup_miss_is_skipped_witness:
  "fst (S2I (Explicit 2 [0, 3]) (0 XOR [1] ! 0)) = -1
   \<and> mask_loop term_real_even [1] [0, 1] [0] [1] (Explicit 2 [0, 3]) [5, 7] 0 0 [0] 2 = Inr 2"
proof -
  have h: "fst (S2I (Explicit 2 [0, 3]) (0 XOR [1] ! 0)) = -1"
    by (simp add: Explicit_def)
  show ?thesis
    using h lookup_miss_is_skipped [OF h, of term_real_even "[0, 1]" "[0]" "[1]" "[5, 7]" 0 "[]" 2 "[]"]
    by simp
qed

section \<open>Repeated calls\<close>


section \<open>The multiply on several processes\<close>

lemma max_msc_3: "max_msc 3 1 = 8" "max_msc 3 2 = 4" "max_msc 3 3 = 2"
  by (simp_all add: max_msc_div)

lemma BuildContext_flip:
  assumes "max_msc 3 p > 1"
  shows "BuildContext_CUDA msc_flip (Full 3) (Full 3) p =
     \<lparr> nmasks_local = 1, nmasks = 1, masks = [1], mask_offsets = [0, 1], signs = [0],
       real_coeffs = [1], left_subspace_data = Full 3, right_subspace_data = Full 3,
       nrm = -1, sc_ctx = False, x_all = [] \<rparr>"
proof -
  have "L (Full 3) = 3" by (simp add: Full_def)
  then have "count_local_masks [1] 1 (max_msc (L (Full 3)) p) 0 = 1"
    using assms
    by (simp add: count_local_masks.simps [of _ _ _ 0] count_local_masks.simps [of _ _ _ 1])
  then show ?thesis
    by (simp add: BuildContext_CUDA_def msc_flip_def Let_def)
qed

lemma xor_vals: "(0::int) XOR 1 = 1" "(1::int) XOR 1 = 0" "(2::int) XOR 1 = 3" "(3::int) XOR 1 = 2"
  "(4::int) XOR 1 = 5" "(5::int) XOR 1 = 4" "(6::int) XOR 1 = 7" "(7::int) XOR 1 = 6"
  by simp_all

lemma popc_0: "popc 0 = 0"
  by (simp add: popc_def popcount.simps)

lemma rank_Vec_3_0: "rank_Vec 3 0 x8 = \<lparr> own_start = 0, own_end = 3, array = [1, 2, 3] \<rparr>"
  by (simp add: rank_Vec_def ownership_start_def PetscSplitOwnership_def x8_def Let_def)


lemma rank_Vec_b_3_0:
  "rank_Vec 3 0 (replicate (nat (Dim (Full 3))) 0) = \<lparr> own_start = 0, own_end = 3, array = [0, 0, 0] \<rparr>"
  by (simp add: rank_Vec_def ownership_start_def PetscSplitOwnership_def Full_def Let_def
      numeral_eq_Suc)

lemma in_bounds_rank0:
  "\<not> MatMult_in_bounds
      \<lparr> nmasks_local = 1, nmasks = 1, masks = [1], mask_offsets = [0, 1], signs = [0],
        real_coeffs = [1], left_subspace_data = Full 3, right_subspace_data = Full 3,
        nrm = -1, sc_ctx = False, x_all = [] \<rparr>
      \<lparr> own_start = 0, own_end = 3, array = [1, 2, 3] \<rparr> x8
      \<lparr> own_start = 0, own_end = 3, array = [0, 0, 0] \<rparr>"
  by (simp add: MatMult_in_bounds_def row_in_bounds_def in_bounds_def col_of_def Full_def
      xor_vals Let_def upt_rec)

lemma rank0_fails:
  "multiply_rank term_real_even msc_flip (Full 3) (Full 3) 3 x8 0 = Inl OutOfBounds"
  using in_bounds_rank0
  by (simp add: multiply_rank_def BuildContext_flip max_msc_3 rank_Vec_3_0 rank_Vec_b_3_0
      MatMult_GPU_closed Let_def)


lemma flip_contribution:
  "contribution term_real_even [1] [0, 1] [0] [1] (Full 3) xa cs ket 0 =
     (if ket XOR 1 = -1 then 0 else xa ! nat ((ket XOR 1) - cs))"
  by (simp add: contribution_def coefficient_def subtotal_def signed_term_def parity_sign_def
      col_of_def lookup_col_def Full_def term_real_even_def popc_0 one_complex.code)

lemma flip_in_bounds:
  "in_bounds (Full 3) [1] xa cs ket 0 =
     (ket XOR 1 = -1 \<or> (cs \<le> ket XOR 1 \<and> ket XOR 1 < cs + int (length xa)))"
  by (simp add: in_bounds_def col_of_def Full_def Let_def)

lemma list_all_True: "list_all (\<lambda>i. True) xs"
  by (simp add: list_all_iff)

lemma Full_simps:
  "I2S (Full l) = (\<lambda>idx. idx)" "SP (Full l) = Full_SP" "spinflip (Full l) = False"
  "L (Full l) = l" "Dim (Full l) = 2 ^ nat l"
  by (simp_all add: Full_def)

lemma flip_MatMult:
  assumes "rs \<le> re" "length ba = nat (re - rs)"
  shows "MatMult_GPU term_real_even
      \<lparr> nmasks_local = 1, nmasks = 1, masks = [1], mask_offsets = [0, 1], signs = [0],
        real_coeffs = [1], left_subspace_data = Full 3, right_subspace_data = Full 3,
        nrm = -1, sc_ctx = False, x_all = [] \<rparr>
      \<lparr> own_start = cs, own_end = ce, array = xa \<rparr> xg
      \<lparr> own_start = rs, own_end = re, array = ba \<rparr> =
    (if list_all (\<lambda>i. in_bounds (Full 3) [1] xa cs (int i + rs) 0) [0 ..< length ba]
     then Inr (\<lparr> nmasks_local = 1, nmasks = 1, masks = [1], mask_offsets = [0, 1], signs = [0],
                  real_coeffs = [1], left_subspace_data = Full 3, right_subspace_data = Full 3,
                  nrm = -1, sc_ctx = True, x_all = xg \<rparr>,
               \<lparr> own_start = rs, own_end = re,
                 array = map (\<lambda>i. contribution term_real_even [1] [0, 1] [0] [1] (Full 3) xa cs
                                     (int i + rs) 0) [0 ..< length ba] \<rparr>)
     else Inl OutOfBounds)"
  using assms
  by (simp add: MatMult_GPU_closed MatMult_in_bounds_def MatMult_rows_def row_in_bounds_def
      row_total_def Full_simps list_all_True)

lemma rank_Vecs:
  "rank_Vec 1 0 x8 = \<lparr> own_start = 0, own_end = 8, array = [1, 2, 3, 4, 5, 6, 7, 8] \<rparr>"
  "rank_Vec 2 0 x8 = \<lparr> own_start = 0, own_end = 4, array = [1, 2, 3, 4] \<rparr>"
  "rank_Vec 2 (Suc 0) x8 = \<lparr> own_start = 4, own_end = 8, array = [5, 6, 7, 8] \<rparr>"
  "rank_Vec 1 0 (replicate (nat (Dim (Full 3))) 0) =
     \<lparr> own_start = 0, own_end = 8, array = [0, 0, 0, 0, 0, 0, 0, 0] \<rparr>"
  "rank_Vec 2 0 (replicate (nat (Dim (Full 3))) 0) =
     \<lparr> own_start = 0, own_end = 4, array = [0, 0, 0, 0] \<rparr>"
  "rank_Vec 2 (Suc 0) (replicate (nat (Dim (Full 3))) 0) =
     \<lparr> own_start = 4, own_end = 8, array = [0, 0, 0, 0] \<rparr>"
  by (simp_all add: rank_Vec_def ownership_start_def PetscSplitOwnership_def x8_def Full_def Let_def
      numeral_eq_Suc)

lemma one_process:
  "multiply_rank term_real_even msc_flip (Full 3) (Full 3) 1 x8 0 = Inr [2, 1, 4, 3, 6, 5, 8, 7]"
  by (simp add: multiply_rank_def BuildContext_flip max_msc_3 rank_Vecs flip_MatMult flip_in_bounds
      flip_contribution xor_vals upt_rec Let_def)

lemma two_processes:
  "multiply_rank term_real_even msc_flip (Full 3) (Full 3) 2 x8 0 = Inr [2, 1, 4, 3]"
  "multiply_rank term_real_even msc_flip (Full 3) (Full 3) 2 x8 (Suc 0) = Inr [6, 5, 8, 7]"
  by (simp_all add: multiply_rank_def BuildContext_flip max_msc_3 rank_Vecs flip_MatMult flip_in_bounds
      flip_contribution xor_vals upt_rec Let_def)

text \<open>
  C1. The multiply of the operator \<open>\<sigma>\<^sup>x\<^sub>0\<close> on three spins, on the Full subspaces, gives
  the same output on one and on two processes. On three processes the first process reads
  its part of the input, which holds the columns 0, 1 and 2, at column 3: the multiply is
  not defined there.
\<close>

theorem multiply_three_processes:
  "multiply term_real_even msc_flip (Full 3) (Full 3) 1 x8 = Inr [2, 1, 4, 3, 6, 5, 8, 7]
   \<and> multiply term_real_even msc_flip (Full 3) (Full 3) 2 x8 = Inr [2, 1, 4, 3, 6, 5, 8, 7]
   \<and> multiply term_real_even msc_flip (Full 3) (Full 3) 3 x8 = Inl OutOfBounds"
  by (simp add: multiply_def one_process two_processes rank0_fails upt_rec)

section \<open>The partition at work\<close>









text \<open>
  C10. With three processes, three spins and the Full subspaces, the first process owns
  the rows and columns 0, 1 and 2. The mask 1 is in the local prefix, since the threshold
  is 2; for the row 2 it gives the column 3, which the process does not own, and the read
  of the local phase is outside the array.
\<close>

theorem local_read_outside_owned_columns:
  "own_start (rank_Vec 3 0 x8) = 0 \<and> own_end (rank_Vec 3 0 x8) = 3
   \<and> length (array (rank_Vec 3 0 x8)) = 3
   \<and> nmasks_local (BuildContext_CUDA msc_flip (Full 3) (Full 3) 3) = 1
   \<and> masks (BuildContext_CUDA msc_flip (Full 3) (Full 3) 3) ! 0 = 1
   \<and> max_msc (L (Full 3)) 3 = 2
   \<and> col_of (right_subspace_data (BuildContext_CUDA msc_flip (Full 3) (Full 3) 3))
        (masks (BuildContext_CUDA msc_flip (Full 3) (Full 3) 3))
        (I2S (left_subspace_data (BuildContext_CUDA msc_flip (Full 3) (Full 3) 3))
           (2 + own_start (rank_Vec 3 0 (replicate (nat (Dim (Full 3))) 0)))) 0 = 3
   \<and> read_x (array (rank_Vec 3 0 x8)) (3 - own_start (rank_Vec 3 0 x8)) = Inl OutOfBounds
   \<and> MatMult_GPU term_real_even (BuildContext_CUDA msc_flip (Full 3) (Full 3) 3)
        (rank_Vec 3 0 x8) x8 (rank_Vec 3 0 (replicate (nat (Dim (Full 3))) 0)) = Inl OutOfBounds"
proof -
  have s2i: "S2I (Full 3) state = (state, 1)" for state
    by (simp add: Full_def)
  have b: "rank_Vec 3 0 (replicate 8 0) = \<lparr> own_start = 0, own_end = 3, array = [0, 0, 0] \<rparr>"
    using rank_Vec_b_3_0 by (simp add: Full_simps)
  show ?thesis
    using in_bounds_rank0
    by (simp add: BuildContext_flip max_msc_3 rank_Vec_3_0 b Full_simps col_of_def
        read_x_def MatMult_GPU_closed xor_vals s2i)
qed


section \<open>The norm and the dense matrix\<close>

lemma sum_list_delta:
  assumes "0 \<le> c" "c < int N"
  shows "(\<Sum>j\<leftarrow>[0 ..< N]. if c = int j then (a::'a::comm_monoid_add) else 0) = a"
proof -
  have "(\<Sum>j\<leftarrow>[0 ..< N]. if c = int j then a else 0) = (\<Sum>j\<in>{0 ..< N}. if c = int j then a else 0)"
    by (simp add: interv_sum_list_conv_sum_set_nat)
  also have "\<dots> = (\<Sum>j\<in>{0 ..< N}. if j = nat c then a else 0)"
    using assms by (intro sum.cong) auto
  also have "\<dots> = a"
  proof -
    have "nat c < N" using assms by linarith
    then show ?thesis by simp
  qed
  finally show ?thesis .
qed






lemma sum_list_no_column:
  assumes "c < 0"
  shows "(\<Sum>j\<leftarrow>[0 ..< N]. if c = int j then (a::complex) else 0) = 0"
proof -
  have "(if c = int j then a else 0) = 0" for j using assms by auto
  then show ?thesis by (simp add: sum_list_0)
qed

lemma sum_by_column_product:
  assumes "\<forall>k\<in>set ks. c k = -1 \<or> (0 \<le> c k \<and> c k < int N)"
  shows "(\<Sum>k\<leftarrow>ks. if c k = -1 then 0 else g k * x ! nat (c k)) =
         (\<Sum>j\<leftarrow>[0 ..< N]. sum_list (map g (filter (\<lambda>k. c k = int j) ks)) * (x ! j :: complex))"
  using assms
proof (induction ks)
  case Nil
  show ?case by (simp add: sum_list_0)
next
  case (Cons k ks)
  have tm: "sum_list (map g (filter (\<lambda>k'. c k' = int j) (k # ks))) * x ! j =
      (if c k = int j then g k * x ! nat (c k) else 0) +
      sum_list (map g (filter (\<lambda>k'. c k' = int j) ks)) * x ! j" for j
    by (simp add: algebra_simps)
  have one: "(\<Sum>j\<leftarrow>[0 ..< N]. if c k = int j then g k * x ! nat (c k) else 0) =
      (if c k = -1 then 0 else g k * x ! nat (c k))"
  proof (cases "c k = -1")
    case True
    then show ?thesis by (simp add: sum_list_no_column)
  next
    case False
    then have "0 \<le> c k" "c k < int N" using Cons.prems by auto
    then show ?thesis using False by (simp add: sum_list_delta)
  qed
  have "(\<Sum>j\<leftarrow>[0 ..< N]. sum_list (map g (filter (\<lambda>k'. c k' = int j) (k # ks))) * x ! j) =
      (\<Sum>j\<leftarrow>[0 ..< N]. if c k = int j then g k * x ! nat (c k) else 0) +
      (\<Sum>j\<leftarrow>[0 ..< N]. sum_list (map g (filter (\<lambda>k'. c k' = int j) ks)) * x ! j)"
    by (simp only: tm sum_list_addf)
  also have "(\<Sum>j\<leftarrow>[0 ..< N]. sum_list (map g (filter (\<lambda>k'. c k' = int j) ks)) * x ! j) =
      (\<Sum>k\<leftarrow>ks. if c k = -1 then 0 else g k * x ! nat (c k))"
    using Cons.prems by (intro Cons.IH [symmetric]) simp
  finally show ?case using one by simp
qed

text \<open>
  The dense matrix is the matrix of the multiply: on one process, which owns all rows and
  columns, the output is the product of the matrix with the input.
\<close>

lemma MatMult_rows_dense:
  assumes wf: "ctx_wf ctx" and x: "own_start x = 0" "array x = x_gathered" and b: "own_start b = 0"
    and i: "i < length (array b)"
    and cols: "\<forall>k<nat (nmasks ctx).
        col_of (right_subspace_data ctx) (masks ctx) (I2S (left_subspace_data ctx) (int i)) k = -1
        \<or> (0 \<le> col_of (right_subspace_data ctx) (masks ctx) (I2S (left_subspace_data ctx) (int i)) k
           \<and> col_of (right_subspace_data ctx) (masks ctx) (I2S (left_subspace_data ctx) (int i)) k
               < int (length x_gathered))"
  shows "MatMult_rows term_real ctx x x_gathered b ! i =
         (\<Sum>j\<leftarrow>[0 ..< length x_gathered]. dense_entry term_real ctx i j * x_gathered ! j)"
proof -
  let ?ket = "I2S (left_subspace_data ctx) (int i)"
  let ?c = "col_of (right_subspace_data ctx) (masks ctx) ?ket"
  let ?g = "coefficient term_real (masks ctx) (mask_offsets ctx) (signs ctx) (real_coeffs ctx)
              (right_subspace_data ctx) ?ket"
  let ?con = "contribution term_real (masks ctx) (mask_offsets ctx) (signs ctx) (real_coeffs ctx)
                (right_subspace_data ctx) x_gathered 0 ?ket"
  have w: "nat (nmasks_local ctx) \<le> nat (nmasks ctx)"
    using wf by (auto simp: ctx_wf_def)
  have split: "[0 ..< nat (nmasks ctx)] =
      [0 ..< nat (nmasks_local ctx)] @ [nat (nmasks_local ctx) ..< nat (nmasks ctx)]"
    using w by (metis le_add_diff_inverse upt_add_eq_append zero_le)
  have "MatMult_rows term_real ctx x x_gathered b ! i =
      sum_list (map ?con [0 ..< nat (nmasks_local ctx)]) +
      sum_list (map ?con [nat (nmasks_local ctx) ..< nat (nmasks ctx)])"
    using i by (simp add: MatMult_rows_phases [OF wf] x b)
  also have "\<dots> = sum_list (map ?con ([0 ..< nat (nmasks_local ctx)] @
                                             [nat (nmasks_local ctx) ..< nat (nmasks ctx)]))"
    by simp
  also have "\<dots> = sum_list (map ?con [0 ..< nat (nmasks ctx)])"
    by (simp only: split [symmetric])
  also have "\<dots> = (\<Sum>k\<leftarrow>[0 ..< nat (nmasks ctx)]. if ?c k = -1 then 0 else ?g k * x_gathered ! nat (?c k))"
    by (simp add: contribution_def cong: map_cong if_cong)
  also have "\<dots> = (\<Sum>j\<leftarrow>[0 ..< length x_gathered].
      sum_list (map ?g (filter (\<lambda>k. ?c k = int j) [0 ..< nat (nmasks ctx)])) * x_gathered ! j)"
    using cols by (intro sum_by_column_product) simp
  finally show ?thesis by (simp add: dense_entry_def)
qed











lemma folded_pair_simps:
  "SP folded_pair = SpinConserve_SP" "L folded_pair = 2" "spinflip folded_pair = True"
  "I2S folded_pair idx = 1"
  "S2I folded_pair state = (if state = 1 \<or> state = 2 then (0, 1) else (-1, 1))"
  by (simp_all add: folded_pair_def)

lemma BuildContext_exchange:
  "BuildContext_CUDA msc_exchange folded_pair folded_pair 1 =
     \<lparr> nmasks_local = 2, nmasks = 2, masks = [0, 3], mask_offsets = [0, 1, 2], signs = [0, 0],
       real_coeffs = [-1, 1], left_subspace_data = folded_pair, right_subspace_data = folded_pair,
       nrm = -1, sc_ctx = False, x_all = [] \<rparr>"
proof -
  have w: "0 \<le> msc_nmasks msc_exchange" "nat (msc_nmasks msc_exchange) \<le> length (msc_masks msc_exchange)"
    by (simp_all add: msc_exchange_def)
  have "max_msc (L folded_pair) 1 = 4" by (simp add: folded_pair_simps max_msc_div)
  then have "nmasks_local (BuildContext_CUDA msc_exchange folded_pair folded_pair 1) = 2"
    by (simp add: BuildContext_nmasks_local [OF w]) (simp add: msc_exchange_def)
  moreover have "[0 ..< 2] = [0, Suc 0]" by (simp add: upt_rec)
  ultimately show ?thesis
    by (simp add: BuildContext_CUDA_def msc_exchange_def Let_def shell_context.equality)
qed

text \<open>
  The same happens with an operator that keeps the subspace, when the subspace folds two
  states onto one index: the two masks of \<open>\<sigma>\<^sup>x\<^sub>0 \<sigma>\<^sup>x\<^sub>1 - 1\<close> send the one row to the one
  column, where their coefficients cancel, and the norm call adds their absolute values.
\<close>

lemma norm_exceeds_dense_folded:
  "MatNorm_GPU term_real_even (BuildContext_CUDA msc_exchange folded_pair folded_pair 1)
     1 NORM_INFINITY =
     (Inr 2, (BuildContext_CUDA msc_exchange folded_pair folded_pair 1)\<lparr>nrm := 2\<rparr>)
   \<and> dense_norm_infinity term_real_even
        (BuildContext_CUDA msc_exchange folded_pair folded_pair 1) 1 1 = 0
   \<and> MatMult_GPU term_real_even (BuildContext_CUDA msc_exchange folded_pair folded_pair 1)
        \<lparr> own_start = 0, own_end = 1, array = [5] \<rparr> [5]
        \<lparr> own_start = 0, own_end = 1, array = [9] \<rparr> =
       Inr ((BuildContext_CUDA msc_exchange folded_pair folded_pair 1)
              \<lparr>sc_ctx := True, x_all := [5]\<rparr>,
            \<lparr> own_start = 0, own_end = 1, array = [0] \<rparr>)"
proof -
  note ctx = BuildContext_exchange
  have u: "[0 ..< 2] = [0, Suc 0]" by (simp add: upt_rec)
  have i: "[0 .. 0] = [0::int]" "[1 .. 1] = [1::int]"
    by (simp_all add: upto.simps)
  have x: "(1::int) XOR 3 = 2" by simp
  have sub: "subtotal term_real_even [0, 3] [0, 1, 2] [0, 0] [- 1, 1] 1 0 = - 1"
    "subtotal term_real_even [0, 3] [0, 1, 2] [0, 0] [- 1, 1] 1 (Suc 0) = 1"
    by (simp_all add: subtotal_def signed_term_def parity_sign_def term_real_even_def popc_0 i
        complex_eq_iff)
  have n: "norm_infinity term_real_even (BuildContext_CUDA msc_exchange folded_pair folded_pair 1) 1 = 2"
    by (simp add: ctx norm_infinity_def row_abs_sum_def sub u folded_pair_simps)
  have a: "MatNorm_GPU term_real_even (BuildContext_CUDA msc_exchange folded_pair folded_pair 1)
       1 NORM_INFINITY =
     (Inr 2, (BuildContext_CUDA msc_exchange folded_pair folded_pair 1)\<lparr>nrm := 2\<rparr>)"
    using MatNorm_GPU_first [of "BuildContext_CUDA msc_exchange folded_pair folded_pair 1" 1 term_real_even]
    by (simp add: n) (simp add: ctx)
  have b: "dense_norm_infinity term_real_even
        (BuildContext_CUDA msc_exchange folded_pair folded_pair 1) 1 1 = 0"
    by (simp add: ctx dense_norm_infinity_def dense_row_sum_def dense_entry_def col_of_def
        coefficient_def lookup_col_def sub folded_pair_simps u x)
  have c: "MatMult_GPU term_real_even (BuildContext_CUDA msc_exchange folded_pair folded_pair 1)
        \<lparr> own_start = 0, own_end = 1, array = [5] \<rparr> [5]
        \<lparr> own_start = 0, own_end = 1, array = [9] \<rparr> =
       Inr ((BuildContext_CUDA msc_exchange folded_pair folded_pair 1)
              \<lparr>sc_ctx := True, x_all := [5]\<rparr>,
            \<lparr> own_start = 0, own_end = 1, array = [0] \<rparr>)"
    unfolding ctx
    apply (subst MatMult_GPU_closed)
      apply simp
     apply simp
    apply (simp add: MatMult_in_bounds_def MatMult_rows_def row_in_bounds_def row_total_def
        in_bounds_def col_of_def contribution_def coefficient_def lookup_col_def sub
        folded_pair_simps u x Let_def)
    done
  show ?thesis using a b c by simp
qed

end
